theory Spec2Isabelle
  imports Complex_Main "HOL-Library.AList"
begin

section \<open>JavaScript values\<close>

text \<open>
  The item builder of \<^verbatim>\<open>src/lib/sitemap-item.ts\<close> is dynamically typed at run time:
  it tests values for truthiness, asks for their \<^verbatim>\<open>typeof\<close>, compares them with
  numbers and reads properties by name. The values are therefore modelled as one datatype.
  A number is \<open>NaN\<close>, an infinity, or the exact rational value of a finite double
  (\<open>Fin 0\<close> stands for both zeros: the code never tells them apart). An object is
  the list of its own properties in insertion order. A string is a list of characters,
  one per UTF-16 code unit.
\<close>

datatype jsnum = NaN | PInf | NInf | Fin rat

datatype jsval =
    JUndefined
  | JNull
  | JBool bool
  | JNum jsnum
  | JStr string
  | JArr "jsval list"
  | JObj "(string \<times> jsval) list"

datatype error =
    NoURLError
  | ChangeFreqInvalidError
  | PriorityInvalidError
  | InvalidVideoDuration
  | InvalidAttr string
  | InvalidAttrValue string jsval
  | InvalidNewsAccessValue
  | InvalidNewsFormat
  | InvalidVideoDescription
  | InvalidVideoFormat
  | TypeError
  | RangeError
  | IOError
  | MissingAttributeValue

text \<open>
  What the run time and the collaborators outside this file compute, and the model does
  not: the time stamp of a file (\<^verbatim>\<open>fs.statSync\<close>, then \<^verbatim>\<open>ut.getTimestampFromDate\<close>;
  \<open>None\<close> when the file cannot be read), the time stamp of a date string, the ISO
  form of a date (\<open>None\<close> when \<^verbatim>\<open>toISOString\<close> raises on an invalid date), and the
  conversions of strings, arrays and objects to numbers and of values other than
  strings to strings. Every theorem holds for all of them.
\<close>

record host =
  statTimestamp :: "jsval \<Rightarrow> jsval \<Rightarrow> jsval option"
  parseTimestamp :: "jsval \<Rightarrow> jsval \<Rightarrow> jsval"
  toISOString :: "jsval \<Rightarrow> jsval option"
  toNumberOther :: "jsval \<Rightarrow> jsnum"
  parseFloatOther :: "jsval \<Rightarrow> jsnum"
  toStringOther :: "jsval \<Rightarrow> string"

fun truthy :: "jsval \<Rightarrow> bool" where
  "truthy JUndefined = False"
| "truthy JNull = False"
| "truthy (JBool b) = b"
| "truthy (JNum NaN) = False"
| "truthy (JNum (Fin q)) = (q \<noteq> 0)"
| "truthy (JNum _) = True"
| "truthy (JStr s) = (s \<noteq> [])"
| "truthy (JArr _) = True"
| "truthy (JObj _) = True"

fun typeof :: "jsval \<Rightarrow> string" where
  "typeof JUndefined = ''undefined''"
| "typeof JNull = ''object''"
| "typeof (JBool _) = ''boolean''"
| "typeof (JNum _) = ''number''"
| "typeof (JStr _) = ''string''"
| "typeof (JArr _) = ''object''"
| "typeof (JObj _) = ''object''"

fun ToNumber :: "host \<Rightarrow> jsval \<Rightarrow> jsnum" where
  "ToNumber h JUndefined = NaN"
| "ToNumber h JNull = Fin 0"
| "ToNumber h (JBool b) = (if b then Fin 1 else Fin 0)"
| "ToNumber h (JNum n) = n"
| "ToNumber h v = toNumberOther h v"

text \<open>The comparison \<^verbatim>\<open>a < b\<close> of two numbers; it is false when either is \<open>NaN\<close>.\<close>

fun num_lt :: "jsnum \<Rightarrow> jsnum \<Rightarrow> bool" where
  "num_lt NaN _ = False"
| "num_lt _ NaN = False"
| "num_lt (Fin a) (Fin b) = (a < b)"
| "num_lt NInf NInf = False"
| "num_lt NInf _ = True"
| "num_lt _ NInf = False"
| "num_lt PInf _ = False"
| "num_lt _ PInf = True"

definition num_le :: "jsnum \<Rightarrow> jsnum \<Rightarrow> bool" where
  "num_le a b = (a \<noteq> NaN \<and> b \<noteq> NaN \<and> \<not> num_lt b a)"

text \<open>\<^verbatim>\<open>v < n\<close>, \<^verbatim>\<open>v > n\<close>, \<^verbatim>\<open>v >= n\<close> and \<^verbatim>\<open>v <= n\<close> for a value and a number literal.\<close>

definition js_lt :: "host \<Rightarrow> jsval \<Rightarrow> rat \<Rightarrow> bool" where
  "js_lt h v n = num_lt (ToNumber h v) (Fin n)"

definition js_gt :: "host \<Rightarrow> jsval \<Rightarrow> rat \<Rightarrow> bool" where
  "js_gt h v n = num_lt (Fin n) (ToNumber h v)"

definition js_ge :: "host \<Rightarrow> jsval \<Rightarrow> rat \<Rightarrow> bool" where
  "js_ge h v n = num_le (Fin n) (ToNumber h v)"

definition js_le :: "host \<Rightarrow> jsval \<Rightarrow> rat \<Rightarrow> bool" where
  "js_le h v n = num_le (ToNumber h v) (Fin n)"

text \<open>
  \<^verbatim>\<open>parseFloat(v)\<close> converts its argument to a string and reads a decimal literal from
  it. The string of a number reads back as that number; those of \<^verbatim>\<open>undefined\<close>,
  \<^verbatim>\<open>null\<close> and the booleans are no literals.
\<close>

fun parseFloat :: "host \<Rightarrow> jsval \<Rightarrow> jsnum" where
  "parseFloat h (JNum n) = n"
| "parseFloat h JUndefined = NaN"
| "parseFloat h JNull = NaN"
| "parseFloat h (JBool _) = NaN"
| "parseFloat h v = parseFloatOther h v"

text \<open>The decimal digits of a natural number; \<open>digit_char\<close> is used below 10 only.\<close>

definition digit_char :: "nat \<Rightarrow> char" where
  "digit_char d = ''0123456789'' ! d"

fun digits :: "nat \<Rightarrow> string" where
  "digits n = (if n < 10 then [digit_char n] else digits (n div 10) @ [digit_char (n mod 10)])"

declare digits.simps [simp del]

text \<open>
  \<^verbatim>\<open>x.toFixed(1)\<close>: the integer \<open>n\<close> with \<open>n / 10\<close> nearest to \<open>x\<close> (the larger of
  two), written with at least two digits and a point before the last one.
\<close>

definition toFixed1 :: "host \<Rightarrow> jsnum \<Rightarrow> string" where
  "toFixed1 h x =
     (case x of
        NaN \<Rightarrow> ''NaN''
      | PInf \<Rightarrow> ''Infinity''
      | NInf \<Rightarrow> ''-Infinity''
      | Fin q \<Rightarrow>
          (let s = (if q < 0 then ''-'' else '''');
               a = \<bar>q\<bar>
           in if 10 ^ 21 \<le> a then s @ toStringOther h (JNum (Fin a))
              else
                (let n = nat \<lfloor>a * 10 + 1 / 2\<rfloor>;
                     m = digits n;
                     m' = (if length m \<le> 1 then replicate (2 - length m) (CHR ''0'') @ m else m)
                 in s @ take (length m' - 1) m' @ ''.'' @ drop (length m' - 1) m')))"

section \<open>Property access\<close>

text \<open>
  \<^verbatim>\<open>v[k]\<close> on a value that is neither \<^verbatim>\<open>undefined\<close> nor \<^verbatim>\<open>null\<close>: a missing property
  reads as \<^verbatim>\<open>undefined\<close>. Reading a property of \<^verbatim>\<open>undefined\<close> or \<^verbatim>\<open>null\<close> raises
  a \<open>TypeError\<close>; the functions below test \<open>nullish\<close> wherever the source can do so.
\<close>

fun get :: "jsval \<Rightarrow> string \<Rightarrow> jsval" where
  "get (JObj kvs) k = (case map_of kvs k of None \<Rightarrow> JUndefined | Some v \<Rightarrow> v)"
| "get (JStr s) k = (if k = ''length'' then JNum (Fin (of_nat (length s))) else JUndefined)"
| "get (JArr xs) k = (if k = ''length'' then JNum (Fin (of_nat (length xs))) else JUndefined)"
| "get _ k = JUndefined"

definition nullish :: "jsval \<Rightarrow> bool" where
  "nullish v = (v = JUndefined \<or> v = JNull)"

definition isArray :: "jsval \<Rightarrow> bool" where
  "isArray v = (case v of JArr _ \<Rightarrow> True | _ \<Rightarrow> False)"

text \<open>The elements of an array, as \<^verbatim>\<open>for (const x of v)\<close> goes through them.\<close>

fun elements :: "jsval \<Rightarrow> jsval list" where
  "elements (JArr xs) = xs"
| "elements _ = []"

definition ToString :: "host \<Rightarrow> jsval \<Rightarrow> string" where
  "ToString h v = (case v of JStr s \<Rightarrow> s | _ \<Rightarrow> toStringOther h v)"

text \<open>\<^verbatim>\<open>s.split(c)\<close> for a one-character separator.\<close>

fun split :: "char \<Rightarrow> string \<Rightarrow> string list" where
  "split c [] = [[]]"
| "split c (x # xs) =
     (if x = c then [] # split c xs
      else (case split c xs of [] \<Rightarrow> [[x]] | y # ys \<Rightarrow> (x # y) # ys))"

section \<open>The validators\<close>

text \<open>
  The regular expressions of the source use literal characters, the class \<^verbatim>\<open>[A-Z]\<close>,
  the anchors and alternation. Alternation binds weakest, so in \<^verbatim>\<open>/^rent|purchase|RENT|PURCHASE$/\<close>
  the \<^verbatim>\<open>^\<close> belongs to the first alternative only and the \<^verbatim>\<open>$\<close> to the last.
  A regular expression is the list of its alternatives; an alternative says whether it
  starts with \<^verbatim>\<open>^\<close>, which characters follow, and whether it ends with \<^verbatim>\<open>$\<close>.
\<close>

datatype atom = Chr char | Rng char char

type_synonym alternative = "bool \<times> atom list \<times> bool"
type_synonym regex = "alternative list"

fun atom_ok :: "atom \<Rightarrow> char \<Rightarrow> bool" where
  "atom_ok (Chr a) c = (a = c)"
| "atom_ok (Rng lo hi) c = ((of_char lo :: nat) \<le> of_char c \<and> (of_char c :: nat) \<le> of_char hi)"

fun match_here :: "atom list \<Rightarrow> string \<Rightarrow> string option" where
  "match_here [] s = Some s"
| "match_here (a # as) [] = None"
| "match_here (a # as) (c # cs) = (if atom_ok a c then match_here as cs else None)"

definition match_at :: "atom list \<Rightarrow> bool \<Rightarrow> string \<Rightarrow> bool" where
  "match_at as to_end s =
     (case match_here as s of None \<Rightarrow> False | Some rest \<Rightarrow> (if to_end then rest = [] else True))"

fun match_from :: "atom list \<Rightarrow> bool \<Rightarrow> string \<Rightarrow> bool" where
  "match_from as to_end [] = match_at as to_end []"
| "match_from as to_end (c # cs) = (match_at as to_end (c # cs) \<or> match_from as to_end cs)"

fun alt_test :: "alternative \<Rightarrow> string \<Rightarrow> bool" where
  "alt_test (from_start, as, to_end) s =
     (if from_start then match_at as to_end s else match_from as to_end s)"

definition test :: "regex \<Rightarrow> string \<Rightarrow> bool" where
  "test r s = list_ex (\<lambda>a. alt_test a s) r"

definition lit :: "string \<Rightarrow> atom list" where
  "lit s = map Chr s"

definition allowDeny :: regex where
  "allowDeny = [(True, lit ''allow'', False), (False, lit ''deny'', True)]"

definition validators :: "(string \<times> regex) list" where
  "validators =
     [(''price:currency'',
         [(True, [Rng (CHR ''A'') (CHR ''Z''), Rng (CHR ''A'') (CHR ''Z''), Rng (CHR ''A'') (CHR ''Z'')], True)]),
      (''price:type'',
         [(True, lit ''rent'', False), (False, lit ''purchase'', False),
          (False, lit ''RENT'', False), (False, lit ''PURCHASE'', True)]),
      (''price:resolution'',
         [(True, lit ''HD'', False), (False, lit ''hd'', False),
          (False, lit ''sd'', False), (False, lit ''SD'', True)]),
      (''platform:relationship'', allowDeny),
      (''restriction:relationship'', allowDeny)]"

section \<open>safeDuration and attrBuilder\<close>

definition safeDuration :: "host \<Rightarrow> jsval \<Rightarrow> error + jsval" where
  "safeDuration h duration =
     (if js_lt h duration 0 \<or> js_gt h duration 28800 then Inl InvalidVideoDuration
      else Inr duration)"

text \<open>The second argument of \<^verbatim>\<open>attrBuilder\<close>: one key, or an array of keys.\<close>

datatype keys = Key string | Keys "string list"

text \<open>\<^verbatim>\<open>if (typeof keys === 'string') keys = [keys]\<close>\<close>

fun key_list :: "keys \<Rightarrow> string list" where
  "key_list (Key k) = [k]"
| "key_list (Keys ks) = ks"

definition validator_fails :: "host \<Rightarrow> string \<Rightarrow> jsval \<Rightarrow> bool" where
  "validator_fails h key v =
     (case map_of validators key of None \<Rightarrow> False | Some r \<Rightarrow> \<not> test r (ToString h v))"

text \<open>The function given to \<^verbatim>\<open>reduce\<close>: one key, from the attributes so far.\<close>

definition attr_step :: "host \<Rightarrow> jsval \<Rightarrow> (string \<times> jsval) list \<Rightarrow> string \<Rightarrow> error + (string \<times> jsval) list" where
  "attr_step h conf attrs key =
     (if nullish conf then Inl TypeError
      else if get conf key \<noteq> JUndefined then
        (let keyAr = split (CHR '':'') key
         in if length keyAr \<noteq> 2 then Inl (InvalidAttr key)
            else if validator_fails h key (get conf key) then Inl (InvalidAttrValue key (get conf key))
            else Inr (AList.update (keyAr ! 1) (get conf key) attrs))
      else Inr attrs)"

fun reduce :: "host \<Rightarrow> jsval \<Rightarrow> string list \<Rightarrow> (string \<times> jsval) list \<Rightarrow> error + (string \<times> jsval) list" where
  "reduce h conf [] attrs = Inr attrs"
| "reduce h conf (key # ks) attrs =
     (case attr_step h conf attrs key of Inl e \<Rightarrow> Inl e | Inr attrs' \<Rightarrow> reduce h conf ks attrs')"

definition attrBuilder :: "host \<Rightarrow> jsval \<Rightarrow> keys \<Rightarrow> error + (string \<times> jsval) list" where
  "attrBuilder h conf keys = reduce h conf (key_list keys) []"

section \<open>The XML tree\<close>

text \<open>
  The tree builder is a collaborator of the item: the model records what the item asks
  it to build. An element has a name, attributes and children; a text, a CDATA section
  and raw markup carry the value they were given. The builder refuses one request the
  item can make: an attribute whose value is \<^verbatim>\<open>undefined\<close> or \<^verbatim>\<open>null\<close> raises
  (``missing attribute value'').
\<close>

datatype xml =
    Element string "(string \<times> jsval) list" "xml list"
  | Text jsval
  | CData jsval
  | Raw jsval

fun name_of :: "xml \<Rightarrow> string" where
  "name_of (Element n _ _) = n"
| "name_of _ = []"

fun children :: "xml \<Rightarrow> xml list" where
  "children (Element _ _ cs) = cs"
| "children _ = []"

fun append_child :: "xml \<Rightarrow> xml \<Rightarrow> xml" where
  "append_child c (Element n as cs) = Element n as (cs @ [c])"
| "append_child c x = x"

text \<open>
  \<^verbatim>\<open>parent.element(n, attrs, text)\<close>: the builder makes the element with its attributes
  before it attaches it, so a refused attribute leaves the parent as it was.
\<close>

definition element_with :: "string \<Rightarrow> (string \<times> jsval) list \<Rightarrow> jsval \<Rightarrow> error + xml" where
  "element_with n attrs text =
     (if list_ex (\<lambda>(k, v). nullish v) attrs then Inl MissingAttributeValue
      else Inr (Element n attrs [Text text]))"

section \<open>The item and its constructor\<close>

text \<open>
  The fields of \<^verbatim>\<open>SitemapItem\<close>. \<open>url\<close> is the element the item builds; its parent
  (\<^verbatim>\<open>conf.root\<close>, or a root the builder creates) belongs to the tree builder and is
  left out.
\<close>

record SitemapItem =
  conf :: jsval
  loc :: jsval
  lastmod :: jsval
  changefreq :: jsval
  priority :: jsval
  news :: jsval
  img :: jsval
  links :: jsval
  expires :: jsval
  androidLink :: jsval
  mobile :: jsval
  video :: jsval
  ampLink :: jsval
  url :: xml

text \<open>
  Modelled from the spec: \<^verbatim>\<open>CHANGEFREQ\<close> is imported from \<^verbatim>\<open>./types\<close>, which is not
  among the sources; the spec lists the change frequencies.
\<close>

definition CHANGEFREQ :: "jsval list" where
  "CHANGEFREQ = map JStr [''always'', ''hourly'', ''daily'', ''weekly'', ''monthly'', ''yearly'', ''never'']"

text \<open>\<^verbatim>\<open>v || null\<close>\<close>

definition or_null :: "jsval \<Rightarrow> jsval" where
  "or_null v = (if truthy v then v else JNull)"

text \<open>The three sources of \<^verbatim>\<open>this.lastmod\<close>, in the constructor's order.\<close>

definition lastmod_of :: "host \<Rightarrow> jsval \<Rightarrow> error + jsval" where
  "lastmod_of h c =
     (if truthy (get c ''lastmodfile'') then
        (case statTimestamp h (get c ''lastmodfile'') (get c ''lastmodrealtime'') of
           None \<Rightarrow> Inl IOError
         | Some t \<Rightarrow> Inr t)
      else if truthy (get c ''lastmod'') then
        Inr (parseTimestamp h (get c ''lastmod'') (get c ''lastmodrealtime''))
      else if truthy (get c ''lastmodISO'') then Inr (get c ''lastmodISO'')
      else Inr JUndefined)"

text \<open>
  The assignments that end the constructor: the fields from the configuration \<open>c\<close>
  and the time stamp \<open>lm\<close>, and a fresh \<^verbatim>\<open>url\<close> element.
\<close>

definition new_item :: "jsval \<Rightarrow> jsval \<Rightarrow> SitemapItem" where
  "new_item c lm = \<lparr>
     conf = c,
     loc = get c ''url'',
     lastmod = lm,
     changefreq = get c ''changefreq'',
     priority = get c ''priority'',
     news = or_null (get c ''news''),
     img = or_null (get c ''img''),
     links = or_null (get c ''links''),
     expires = or_null (get c ''expires''),
     androidLink = or_null (get c ''androidLink''),
     mobile = or_null (get c ''mobile''),
     video = or_null (get c ''video''),
     ampLink = or_null (get c ''ampLink''),
     url = Element ''url'' [] [] \<rparr>"

text \<open>
  \<^verbatim>\<open>new SitemapItem(conf)\<close>: an absent argument is \<^verbatim>\<open>{}\<close>, and \<^verbatim>\<open>null\<close> has no
  properties to read. The checks come in the order of the source: the url, the time
  stamp, the change frequency, the priority.
\<close>

definition constructor :: "host \<Rightarrow> jsval \<Rightarrow> error + SitemapItem" where
  "constructor h conf0 =
     (let c = (if conf0 = JUndefined then JObj [] else conf0);
          isSafeUrl = get c ''safe''
      in if c = JNull then Inl TypeError
         else if \<not> truthy (get c ''url'') then Inl NoURLError
         else
           (case lastmod_of h c of
              Inl e \<Rightarrow> Inl e
            | Inr lm \<Rightarrow>
                if \<not> truthy isSafeUrl \<and> truthy (get c ''changefreq'') \<and>
                   get c ''changefreq'' \<notin> set CHANGEFREQ
                then Inl ChangeFreqInvalidError
                else if \<not> truthy isSafeUrl \<and> truthy (get c ''priority'') \<and>
                   (\<not> (js_ge h (get c ''priority'') 0 \<and> js_le h (get c ''priority'') 1) \<or>
                    typeof (get c ''priority'') \<noteq> ''number'')
                then Inl PriorityInvalidError
                else Inr (new_item c lm)))"

text \<open>\<^verbatim>\<open>this[p]\<close> for the property names \<^verbatim>\<open>buildXML\<close> goes through.\<close>

definition this_at :: "SitemapItem \<Rightarrow> string \<Rightarrow> jsval" where
  "this_at it p =
     (if p = ''loc'' then loc it
      else if p = ''lastmod'' then lastmod it
      else if p = ''changefreq'' then changefreq it
      else if p = ''priority'' then priority it
      else if p = ''img'' then img it
      else if p = ''video'' then video it
      else if p = ''links'' then links it
      else if p = ''expires'' then expires it
      else if p = ''androidLink'' then androidLink it
      else if p = ''mobile'' then mobile it
      else if p = ''news'' then news it
      else if p = ''ampLink'' then ampLink it
      else JUndefined)"

text \<open>\<^verbatim>\<open>this.url.element(...)\<close>: the new element becomes the last child of \<open>url\<close>.\<close>

definition add_child :: "xml \<Rightarrow> SitemapItem \<Rightarrow> SitemapItem" where
  "add_child c it = it\<lparr>url := append_child c (url it)\<rparr>"

section \<open>Steps that may raise\<close>

text \<open>
  A builder appends children to an element it has already attached, one field after the
  other, and any field may raise. A step gives the children one field appends, or the
  error; running the steps gives the children appended before the first error, and the
  error if there was one.
\<close>

type_synonym step = "jsval \<Rightarrow> error + xml list"

fun run_steps :: "step list \<Rightarrow> jsval \<Rightarrow> xml list \<Rightarrow> error option \<times> xml list" where
  "run_steps [] v acc = (None, acc)"
| "run_steps (f # fs) v acc =
     (case f v of Inl e \<Rightarrow> (Some e, acc) | Inr ns \<Rightarrow> run_steps fs v (acc @ ns))"

text \<open>\<^verbatim>\<open>if (v[k]) parent.element(n, v[k])\<close>\<close>

definition opt_element :: "string \<Rightarrow> string \<Rightarrow> step" where
  "opt_element k n v = Inr (if truthy (get v k) then [Element n [] [Text (get v k)]] else [])"

text \<open>\<^verbatim>\<open>if (v[k]) parent.element(n, attrBuilder(v, keys), v[k])\<close>\<close>

definition opt_element_attrs :: "host \<Rightarrow> string \<Rightarrow> string \<Rightarrow> keys \<Rightarrow> step" where
  "opt_element_attrs h k n ks v =
     (if truthy (get v k) then
        (case attrBuilder h v ks of
           Inl e \<Rightarrow> Inl e
         | Inr attrs \<Rightarrow>
             (case element_with n attrs (get v k) of Inl e \<Rightarrow> Inl e | Inr x \<Rightarrow> Inr [x]))
      else Inr [])"

text \<open>\<^verbatim>\<open>array.forEach(f)\<close> where \<open>f\<close> changes the item and may raise.\<close>

fun forEach :: "(jsval \<Rightarrow> SitemapItem \<Rightarrow> error option \<times> SitemapItem) \<Rightarrow> jsval list \<Rightarrow>
    SitemapItem \<Rightarrow> error option \<times> SitemapItem" where
  "forEach f [] it = (None, it)"
| "forEach f (x # xs) it =
     (case f x it of (Some e, it') \<Rightarrow> (Some e, it') | (None, it') \<Rightarrow> forEach f xs it')"

section \<open>buildVideoElement\<close>

definition video_required :: step where
  "video_required vid =
     (if typeof vid \<noteq> ''object'' then Inl InvalidVideoFormat
      else if nullish vid then Inl TypeError
      else if \<not> truthy (get vid ''thumbnail_loc'') \<or> \<not> truthy (get vid ''title'') \<or>
              \<not> truthy (get vid ''description'')
      then Inl InvalidVideoFormat
      else Inr [])"

definition video_description_length :: "host \<Rightarrow> step" where
  "video_description_length h vid =
     (if js_gt h (get (get vid ''description'') ''length'') 2048 then Inl InvalidVideoDescription
      else Inr [])"

definition video_head :: step where
  "video_head vid =
     Inr [Element ''video:thumbnail_loc'' [] [Text (get vid ''thumbnail_loc'')],
          Element ''video:title'' [] [CData (get vid ''title'')],
          Element ''video:description'' [] [CData (get vid ''description'')]]"

definition video_duration :: "host \<Rightarrow> step" where
  "video_duration h vid =
     (if truthy (get vid ''duration'') then
        (case safeDuration h (get vid ''duration'') of
           Inl e \<Rightarrow> Inl e
         | Inr d \<Rightarrow> Inr [Element ''video:duration'' [] [Text d]])
      else Inr [])"

definition video_tag :: step where
  "video_tag vid =
     Inr (if truthy (get vid ''tag'') then
            (if \<not> isArray (get vid ''tag'') then [Element ''video:tag'' [] [Text (get vid ''tag'')]]
             else map (\<lambda>tag. Element ''video:tag'' [] [Text tag]) (elements (get vid ''tag'')))
          else [])"

definition video_gallery_loc :: step where
  "video_gallery_loc vid =
     (if truthy (get vid ''gallery_loc'') then
        (case element_with ''video:gallery_loc'' [(''title'', get vid ''gallery_loc:title'')]
                (get vid ''gallery_loc'') of
           Inl e \<Rightarrow> Inl e
         | Inr x \<Rightarrow> Inr [x])
      else Inr [])"

text \<open>The statements of \<^verbatim>\<open>buildVideoElement\<close> after the first, in their order.\<close>

definition video_steps :: "host \<Rightarrow> step list" where
  "video_steps h =
     [video_required,
      video_description_length h,
      video_head,
      opt_element ''content_loc'' ''video:content_loc'',
      opt_element_attrs h ''player_loc'' ''video:player_loc'' (Key ''player_loc:autoplay''),
      video_duration h,
      opt_element ''expiration_date'' ''video:expiration_date'',
      opt_element ''rating'' ''video:rating'',
      opt_element ''view_count'' ''video:view_count'',
      opt_element ''publication_date'' ''video:publication_date'',
      opt_element ''family_friendly'' ''video:family_friendly'',
      video_tag,
      opt_element ''category'' ''video:category'',
      opt_element_attrs h ''restriction'' ''video:restriction'' (Key ''restriction:relationship''),
      video_gallery_loc,
      opt_element_attrs h ''price'' ''video:price''
        (Keys [''price:resolution'', ''price:currency'', ''price:type'']),
      opt_element ''requires_subscription'' ''video:requires_subscription'',
      opt_element ''uploader'' ''video:uploader'',
      opt_element_attrs h ''platform'' ''video:platform'' (Key ''platform:relationship''),
      opt_element ''live'' ''video:live'']"

text \<open>
  The first statement attaches an empty \<^verbatim>\<open>video:video\<close> element to \<open>url\<close>; the others
  fill it in place, so it holds what was appended before an error.
\<close>

definition buildVideoElement :: "host \<Rightarrow> jsval \<Rightarrow> SitemapItem \<Rightarrow> error option \<times> SitemapItem" where
  "buildVideoElement h vid it =
     (case run_steps (video_steps h) vid [] of
        (r, kids) \<Rightarrow> (r, add_child (Element ''video:video'' [] kids) it))"

section \<open>buildXML\<close>

text \<open>\<^verbatim>\<open>if (typeof v !== 'object' || v.length === undefined) v = [v]\<close>, for a truthy \<open>v\<close>.\<close>

definition as_array :: "jsval \<Rightarrow> jsval" where
  "as_array v = (if typeof v \<noteq> ''object'' \<or> get v ''length'' = JUndefined then JArr [v] else v)"

text \<open>The function given to \<^verbatim>\<open>forEach\<close> for the images.\<close>

definition image_step :: "jsval \<Rightarrow> SitemapItem \<Rightarrow> error option \<times> SitemapItem" where
  "image_step im it =
     (if nullish im then (Some TypeError, it)
      else
        (None, add_child (Element ''image:image'' []
           ((if typeof im \<noteq> ''object'' then [Element ''image:loc'' [] [Text im]]
             else if truthy (get im ''url'') then [Element ''image:loc'' [] [Text (get im ''url'')]]
             else []) @
            (if truthy (get im ''caption'')
             then [Element ''image:caption'' [] [CData (get im ''caption'')]] else []) @
            (if truthy (get im ''geoLocation'')
             then [Element ''image:geo_location'' [] [Text (get im ''geoLocation'')]] else []) @
            (if truthy (get im ''title'')
             then [Element ''image:title'' [] [CData (get im ''title'')]] else []) @
            (if truthy (get im ''license'')
             then [Element ''image:license'' [] [Text (get im ''license'')]] else []))) it))"

text \<open>
  The function given to \<^verbatim>\<open>forEach\<close> for the links. The element is asked for as an
  object, \<^verbatim>\<open>{'xhtml:link': {'@rel': ..., '@hreflang': ..., '@href': ...}}\<close>: the builder
  attaches \<^verbatim>\<open>xhtml:link\<close> and then sets the attributes in this order, so a refused
  attribute leaves the element with the attributes set before it.
\<close>

definition link_step :: "jsval \<Rightarrow> SitemapItem \<Rightarrow> error option \<times> SitemapItem" where
  "link_step link it =
     (if nullish link then (Some TypeError, it)
      else if nullish (get link ''lang'') then
        (Some MissingAttributeValue,
         add_child (Element ''xhtml:link'' [(''rel'', JStr ''alternate'')] []) it)
      else if nullish (get link ''url'') then
        (Some MissingAttributeValue,
         add_child (Element ''xhtml:link''
           [(''rel'', JStr ''alternate''), (''hreflang'', get link ''lang'')] []) it)
      else
        (None, add_child (Element ''xhtml:link''
           [(''rel'', JStr ''alternate''), (''hreflang'', get link ''lang''), (''href'', get link ''url'')]
           []) it))"

text \<open>\<^verbatim>\<open>v.forEach(f)\<close> for a truthy \<open>v\<close>: only an array has the method.\<close>

definition forEach_of :: "(jsval \<Rightarrow> SitemapItem \<Rightarrow> error option \<times> SitemapItem) \<Rightarrow> jsval \<Rightarrow>
    SitemapItem \<Rightarrow> error option \<times> SitemapItem" where
  "forEach_of f v it = (case v of JArr xs \<Rightarrow> forEach f xs it | _ \<Rightarrow> (Some TypeError, it))"

definition news_required :: step where
  "news_required n =
     (if \<not> truthy (get n ''publication'') \<or>
         \<not> truthy (get (get n ''publication'') ''name'') \<or>
         \<not> truthy (get (get n ''publication'') ''language'') \<or>
         \<not> truthy (get n ''publication_date'') \<or>
         \<not> truthy (get n ''title'')
      then Inl InvalidNewsFormat
      else Inr [])"

definition news_publication :: step where
  "news_publication n =
     Inr (if truthy (get n ''publication'') then
            [Element ''news:publication'' []
               ((if truthy (get (get n ''publication'') ''name'')
                 then [Element ''news:name'' [] [CData (get (get n ''publication'') ''name'')]] else []) @
                (if truthy (get (get n ''publication'') ''language'')
                 then [Element ''news:language'' [] [Text (get (get n ''publication'') ''language'')]]
                 else []))]
          else [])"

definition news_access :: step where
  "news_access n =
     (if truthy (get n ''access'') then
        (if get n ''access'' \<noteq> JStr ''Registration'' \<and> get n ''access'' \<noteq> JStr ''Subscription''
         then Inl InvalidNewsAccessValue
         else Inr [Element ''news:access'' [] [Text (get n ''access'')]])
      else Inr [])"

definition news_date_title :: step where
  "news_date_title n =
     Inr [Element ''news:publication_date'' [] [Text (get n ''publication_date'')],
          Element ''news:title'' [] [CData (get n ''title'')]]"

definition news_steps :: "step list" where
  "news_steps =
     [news_required,
      news_publication,
      news_access,
      opt_element ''genres'' ''news:genres'',
      news_date_title,
      opt_element ''keywords'' ''news:keywords'',
      opt_element ''stock_tickers'' ''news:stock_tickers'']"

text \<open>The \<^verbatim>\<open>news\<close> branch: \<^verbatim>\<open>news:news\<close> is attached first and filled in place.\<close>

definition buildNewsElement :: "jsval \<Rightarrow> SitemapItem \<Rightarrow> error option \<times> SitemapItem" where
  "buildNewsElement n it =
     (case run_steps news_steps n [] of
        (r, kids) \<Rightarrow> (r, add_child (Element ''news:news'' [] kids) it))"

text \<open>One turn of the loop of \<^verbatim>\<open>buildXML\<close>, for the property name \<open>p\<close>.\<close>

definition build_prop :: "host \<Rightarrow> string \<Rightarrow> SitemapItem \<Rightarrow> error option \<times> SitemapItem" where
  "build_prop h p it =
     (if truthy (this_at it p) \<and> p = ''img'' then
        forEach_of image_step (as_array (img it)) (it\<lparr>img := as_array (img it)\<rparr>)
      else if truthy (this_at it p) \<and> p = ''video'' then
        forEach_of (buildVideoElement h) (as_array (video it)) (it\<lparr>video := as_array (video it)\<rparr>)
      else if truthy (this_at it p) \<and> p = ''links'' then
        forEach_of link_step (links it) it
      else if truthy (this_at it p) \<and> p = ''expires'' then
        (case toISOString h (expires it) of
           None \<Rightarrow> (Some RangeError, it)
         | Some s \<Rightarrow> (None, add_child (Element ''expires'' [] [Text s]) it))
      else if truthy (this_at it p) \<and> p = ''androidLink'' then
        (None, add_child (Element ''xhtml:link''
           [(''rel'', JStr ''alternate''), (''href'', androidLink it)] []) it)
      else if truthy (this_at it p) \<and> p = ''mobile'' then
        (None, add_child (Element ''mobile:mobile''
           (if typeof (mobile it) = ''string'' then [(''type'', mobile it)] else []) []) it)
      else if p = ''priority'' \<and> js_ge h (this_at it p) 0 \<and> js_le h (this_at it p) 1 then
        (None, add_child (Element p [] [Text (JStr (toFixed1 h (parseFloat h (this_at it p))))]) it)
      else if truthy (this_at it p) \<and> p = ''ampLink'' then
        (None, add_child (Element ''xhtml:link''
           [(''rel'', JStr ''amphtml''), (''href'', ampLink it)] []) it)
      else if truthy (this_at it p) \<and> p = ''news'' then
        buildNewsElement (news it) it
      else if truthy (this_at it p) then
        (if p = ''loc'' \<and> truthy (get (conf it) ''cdata'')
         then (None, add_child (Element p [] [Raw (this_at it p)]) it)
         else (None, add_child (Element p [] [Text (this_at it p)]) it))
      else (None, it))"

definition props :: "string list" where
  "props = [''loc'', ''lastmod'', ''changefreq'', ''priority'', ''img'', ''video'', ''links'',
            ''expires'', ''androidLink'', ''mobile'', ''news'', ''ampLink'']"

text \<open>The loop over the property names; it stops at the first error.\<close>

fun build_props :: "host \<Rightarrow> string list \<Rightarrow> SitemapItem \<Rightarrow> error option \<times> SitemapItem" where
  "build_props h [] it = (None, it)"
| "build_props h (p # ps) it =
     (case build_prop h p it of (Some e, it') \<Rightarrow> (Some e, it') | (None, it') \<Rightarrow> build_props h ps it')"

text \<open>\<^verbatim>\<open>this.url.children = []; this.url.attributes = {}\<close>\<close>

fun reset :: "xml \<Rightarrow> xml" where
  "reset (Element n as cs) = Element n [] []"
| "reset x = x"

text \<open>
  \<^verbatim>\<open>buildXML()\<close> gives the element \<open>url\<close>, or raises; either way the item is left as
  the loop changed it.
\<close>

definition buildXML :: "host \<Rightarrow> SitemapItem \<Rightarrow> (error + xml) \<times> SitemapItem" where
  "buildXML h it =
     (case build_props h props (it\<lparr>url := reset (url it)\<rparr>) of
        (Some e, it') \<Rightarrow> (Inl e, it')
      | (None, it') \<Rightarrow> (Inr (url it'), it'))"

section \<open>Notions used in the statements\<close>

text \<open>The children of a node that are \<^verbatim>\<open>priority\<close> elements.\<close>

definition priority_elements :: "xml \<Rightarrow> xml list" where
  "priority_elements x = filter (\<lambda>c. name_of c = ''priority'') (children x)"

fun is_element :: "xml \<Rightarrow> bool" where
  "is_element (Element _ _ _) = True"
| "is_element _ = False"

text \<open>
  What a turn of the loop for a property other than \<^verbatim>\<open>priority\<close> leaves as it was.
\<close>

definition keeps :: "SitemapItem \<Rightarrow> SitemapItem \<Rightarrow> bool" where
  "keeps it it' =
     (priority it' = priority it \<and> news it' = news it \<and> conf it' = conf it \<and>
      is_element (url it') \<and> priority_elements (url it') = priority_elements (url it))"

text \<open>Whether the word \<open>w\<close> occurs in the string \<open>s\<close>, as a run of adjacent characters.\<close>

fun starts_with :: "string \<Rightarrow> string \<Rightarrow> bool" where
  "starts_with s [] = True"
| "starts_with [] (c # w) = False"
| "starts_with (x # s) (c # w) = (x = c \<and> starts_with s w)"

fun occurs_in :: "string \<Rightarrow> string \<Rightarrow> bool" where
  "occurs_in w [] = (w = [])"
| "occurs_in w (x # s) = (starts_with (x # s) w \<or> occurs_in w s)"

text \<open>Equality of two strings up to the case of the letters A to Z.\<close>

definition lower :: "char \<Rightarrow> char" where
  "lower c =
     (case map_of (zip ''ABCDEFGHIJKLMNOPQRSTUVWXYZ'' ''abcdefghijklmnopqrstuvwxyz'') c of
        None \<Rightarrow> c
      | Some l \<Rightarrow> l)"

definition equal_ignoring_case :: "string \<Rightarrow> string \<Rightarrow> bool" where
  "equal_ignoring_case s t = (map lower s = map lower t)"

text \<open>
  A host for the examples: no file can be read, no date has an ISO form, and the
  conversions left to the host give \<open>NaN\<close> and the empty string. The examples use none
  of them.
\<close>

definition host0 :: host where
  "host0 = \<lparr>statTimestamp = (\<lambda>_ _. None), parseTimestamp = (\<lambda>_ _. JUndefined),
            toISOString = (\<lambda>_. None), toNumberOther = (\<lambda>_. NaN),
            parseFloatOther = (\<lambda>_. NaN), toStringOther = (\<lambda>_. [])\<rparr>"

text \<open>
  The configuration \<^verbatim>\<open>{url: "https://example.com/a", safe: true, priority: 1.5}\<close>, the
  item the constructor makes of it, and the element \<^verbatim>\<open>buildXML\<close> gives for it.
\<close>

definition conf_safe_15 :: jsval where
  "conf_safe_15 = JObj [(''url'', JStr ''https://example.com/a''), (''safe'', JBool True),
                        (''priority'', JNum (Fin (3 / 2)))]"

definition node_safe_15 :: xml where
  "node_safe_15 = Element ''url'' []
     [Element ''loc'' [] [Text (JStr ''https://example.com/a'')],
      Element ''priority'' [] [Text (JNum (Fin (3 / 2)))]]"

text \<open>
  A configuration whose news has a name, a date, a title, genres and keywords, and no
  language.
\<close>

definition conf_news :: jsval where
  "conf_news = JObj [(''url'', JStr ''https://example.com/n''),
     (''news'', JObj [(''publication'', JObj [(''name'', JStr ''The Example Times'')]),
                      (''publication_date'', JStr ''2008-12-23''),
                      (''title'', JStr ''Companies A, B in Merger Talks''),
                      (''genres'', JStr ''PressRelease, Blog''),
                      (''keywords'', JStr ''business, merger'')])]"

text \<open>The video \<^verbatim>\<open>{thumbnail_loc: "t.jpg", title: "T", description: "D"}\<close>.\<close>

definition video_tTD :: "(string \<times> jsval) list" where
  "video_tTD = [(''thumbnail_loc'', JStr ''t.jpg''), (''title'', JStr ''T''), (''description'', JStr ''D'')]"

text \<open>A configuration whose video has the duration 28801.\<close>

definition conf_video_long :: jsval where
  "conf_video_long = JObj [(''url'', JStr ''https://example.com/v''),
     (''video'', JObj (video_tTD @ [(''duration'', JNum (Fin 28801))]))]"

text \<open>
  Videos with a price: the currency in lower case; the currency in upper case with a
  resolution and a type; and a type \<open>s\<close> alone.
\<close>

definition video_usd :: jsval where
  "video_usd = JObj (video_tTD @ [(''price'', JStr ''1.99''), (''price:currency'', JStr ''usd'')])"

definition video_USD :: jsval where
  "video_USD = JObj (video_tTD @ [(''price'', JStr ''1.99''), (''price:resolution'', JStr ''HD''),
     (''price:currency'', JStr ''USD''), (''price:type'', JStr ''rent'')])"

definition video_priced :: "string \<Rightarrow> jsval" where
  "video_priced s = JObj (video_tTD @ [(''price'', JStr ''1.99''), (''price:type'', JStr s)])"

text \<open>
  A video with a duration whose price has the currency in lower case, and news whose
  access is neither \<^verbatim>\<open>Registration\<close> nor \<^verbatim>\<open>Subscription\<close>.
\<close>

definition video_late :: jsval where
  "video_late = JObj (video_tTD @ [(''duration'', JNum (Fin 3600)), (''price'', JStr ''1.99''),
     (''price:currency'', JStr ''usd'')])"

definition news_bad_access :: jsval where
  "news_bad_access = JObj [(''publication'', JObj [(''name'', JStr ''The Example Times''), (''language'', JStr ''en'')]),
     (''publication_date'', JStr ''2008-12-23''), (''title'', JStr ''Merger Talks''),
     (''access'', JStr ''Free'')]"

text \<open>The double nearest to 0.7, which the literal \<^verbatim>\<open>0.7\<close> denotes.\<close>

definition double_0_7 :: rat where
  "double_0_7 = 3152519739159347 / 4503599627370496"

section \<open>The attribute extractor\<close>

lemma split_no_sep: "c \<notin> set s \<Longrightarrow> split c s = [s]"
  by (induction s) auto

lemma get_defined_not_nullish: "get c k \<noteq> JUndefined \<Longrightarrow> \<not> nullish c"
  by (auto simp: nullish_def)

lemma reduce_append:
  "reduce h c (xs @ ys) a =
     (case reduce h c xs a of Inl e \<Rightarrow> Inl e | Inr a' \<Rightarrow> reduce h c ys a')"
  by (induction xs arbitrary: a) (auto split: sum.splits)

lemma attrBuilder_after:
  assumes "attrBuilder h c (Keys pre) = Inr a"
  shows "attrBuilder h c (Keys (pre @ k # post)) =
     (case attr_step h c a k of Inl e \<Rightarrow> Inl e | Inr a' \<Rightarrow> reduce h c post a')"
  using assms by (simp add: attrBuilder_def reduce_append)

text \<open>A key whose step raises whatever the attributes so far makes the whole call raise.\<close>

lemma reduce_raises:
  assumes "k \<in> set ks" "\<And>a. \<exists>e. attr_step h c a k = Inl e"
  shows "\<exists>e. reduce h c ks a = Inl e"
  using assms(1)
proof (induction ks arbitrary: a)
  case Nil
  then show ?case by simp
next
  case (Cons x ks)
  show ?case
  proof (cases "attr_step h c a x")
    case (Inl e)
    then show ?thesis by simp
  next
    case (Inr a')
    with assms(2) [of a] have "x \<noteq> k" by auto
    with Cons.prems have "k \<in> set ks" by simp
    with Cons.IH [of a'] Inr show ?thesis by simp
  qed
qed

lemma attr_step_no_colon:
  "CHR '':'' \<notin> set k \<Longrightarrow> get c k \<noteq> JUndefined \<Longrightarrow> attr_step h c a k = Inl (InvalidAttr k)"
  using get_defined_not_nullish [of c k] by (simp add: attr_step_def split_no_sep)

lemma attr_step_currency:
  assumes "get c ''price:currency'' = JStr s"
  shows "attr_step h c a ''price:currency'' =
     (if length s = 3 \<and> (\<forall>x \<in> set s. atom_ok (Rng (CHR ''A'') (CHR ''Z'')) x)
      then Inr (AList.update ''currency'' (JStr s) a)
      else Inl (InvalidAttrValue ''price:currency'' (JStr s)))"
proof -
  have n: "\<not> nullish c" using assms get_defined_not_nullish [of c "''price:currency''"] by simp
  have t: "test [(True, [Rng (CHR ''A'') (CHR ''Z''), Rng (CHR ''A'') (CHR ''Z''), Rng (CHR ''A'') (CHR ''Z'')], True)] s
      \<longleftrightarrow> length s = 3 \<and> (\<forall>x \<in> set s. atom_ok (Rng (CHR ''A'') (CHR ''Z'')) x)"
  proof (cases s)
    case Nil
    then show ?thesis by (simp add: test_def match_at_def)
  next
    case (Cons x1 s1)
    note c1 = this
    show ?thesis
    proof (cases s1)
      case Nil
      with c1 show ?thesis by (simp add: test_def match_at_def)
    next
      case (Cons x2 s2)
      note c2 = this
      show ?thesis
      proof (cases s2)
        case Nil
        with c1 c2 show ?thesis by (simp add: test_def match_at_def)
      next
        case (Cons x3 s3)
        with c1 c2 show ?thesis by (cases s3) (auto simp: test_def match_at_def)
      qed
    qed
  qed
  show ?thesis using assms n t
    by (simp add: attr_step_def validator_fails_def validators_def ToString_def)
qed

text \<open>A key with a colon never raises \<open>InvalidAttr\<close>.\<close>

lemma attr_step_price_key:
  assumes "k \<in> {''price:resolution'', ''price:currency'', ''price:type''}" "\<not> nullish c"
  shows "attr_step h c a k =
     (if get c k = JUndefined then Inr a
      else if validator_fails h k (get c k) then Inl (InvalidAttrValue k (get c k))
      else Inr (AList.update (drop 6 k) (get c k) a))"
  using assms by (auto simp: attr_step_def)


lemma run_steps_append:
  "run_steps (fs @ gs) v acc =
     (case run_steps fs v acc of (Some e, a) \<Rightarrow> (Some e, a) | (None, a) \<Rightarrow> run_steps gs v a)"
  by (induction fs arbitrary: acc) (auto split: sum.splits)

lemma video_steps_price:
  "video_steps h = take 15 (video_steps h) @
     opt_element_attrs h ''price'' ''video:price''
       (Keys [''price:resolution'', ''price:currency'', ''price:type'']) # drop 16 (video_steps h)"
  by (simp add: video_steps_def)

text \<open>When the keys of the price raise, so does the build of the video.\<close>

lemma price_raises:
  assumes "run_steps (take 15 (video_steps h)) v [] = (None, acc)" "truthy (get v ''price'')"
    "attrBuilder h v (Keys [''price:resolution'', ''price:currency'', ''price:type'']) = Inl e"
  shows "buildVideoElement h v it = (Some e, add_child (Element ''video:video'' [] acc) it)"
proof -
  have "run_steps (video_steps h) v [] = (Some e, acc)"
    by (subst video_steps_price, subst run_steps_append)
       (simp add: assms opt_element_attrs_def)
  then show ?thesis by (simp add: buildVideoElement_def)
qed

lemma price_keys_usd:
  assumes "get c ''price:currency'' = JStr ''usd''"
  shows "\<exists>key v. attrBuilder h c (Keys [''price:resolution'', ''price:currency'', ''price:type''])
           = Inl (InvalidAttrValue key v)"
proof -
  have n: "\<not> nullish c" using assms get_defined_not_nullish [of c "''price:currency''"] by simp
  have cur: "attr_step h c a ''price:currency'' = Inl (InvalidAttrValue ''price:currency'' (JStr ''usd''))" for a
    using attr_step_currency [OF assms] by simp
  show ?thesis
    using n cur by (auto simp: attrBuilder_def attr_step_price_key)
qed

text \<open>
  C4. \<^verbatim>\<open>attrBuilder\<close> reads no \<^verbatim>\<open>safe\<close> flag. For every source mapping, in a call with
  one key and in a call with an array of keys, as the price of a video makes it with
  \<^verbatim>\<open>price:resolution\<close>, \<^verbatim>\<open>price:currency\<close> and \<^verbatim>\<open>price:type\<close>: a present key without a
  colon makes the call fail, with \<open>InvalidAttr\<close> for that key once the keys before it
  pass; the value \<^verbatim>\<open>"usd"\<close> under \<^verbatim>\<open>price:currency\<close> makes the call fail with
  \<open>InvalidAttrValue\<close>, for that key once the keys before it pass, and with it the
  build of a video whose price is set; the value \<^verbatim>\<open>"USD"\<close> is accepted: the attributes
  gain \<^verbatim>\<open>currency\<close> with that value, and the call for the price succeeds when the
  resolution and the type pass.
\<close>

theorem attrBuilder_keys:
  "(CHR '':'' \<notin> set k \<and> get c k \<noteq> JUndefined \<longrightarrow>
      attrBuilder h c (Key k) = Inl (InvalidAttr k) \<and>
      (attrBuilder h c (Keys pre) = Inr a \<longrightarrow>
         attrBuilder h c (Keys (pre @ k # post)) = Inl (InvalidAttr k)) \<and>
      (k \<in> set ks \<longrightarrow> (\<exists>e. attrBuilder h c (Keys ks) = Inl e))) \<and>
   (get c ''price:currency'' = JStr ''usd'' \<longrightarrow>
      attrBuilder h c (Key ''price:currency'') = Inl (InvalidAttrValue ''price:currency'' (JStr ''usd'')) \<and>
      (attrBuilder h c (Keys pre) = Inr a \<longrightarrow>
         attrBuilder h c (Keys (pre @ ''price:currency'' # post))
           = Inl (InvalidAttrValue ''price:currency'' (JStr ''usd''))) \<and>
      (\<exists>key v. attrBuilder h c (Keys [''price:resolution'', ''price:currency'', ''price:type''])
                  = Inl (InvalidAttrValue key v)) \<and>
      (run_steps (take 15 (video_steps h)) c [] = (None, acc) \<and> truthy (get c ''price'') \<longrightarrow>
         (\<exists>key v. buildVideoElement h c it
                     = (Some (InvalidAttrValue key v), add_child (Element ''video:video'' [] acc) it)))) \<and>
   (get c ''price:currency'' = JStr ''USD'' \<longrightarrow>
      attrBuilder h c (Key ''price:currency'') = Inr [(''currency'', JStr ''USD'')] \<and>
      (attrBuilder h c (Keys pre) = Inr a \<longrightarrow>
         attrBuilder h c (Keys (pre @ [''price:currency'']))
           = Inr (AList.update ''currency'' (JStr ''USD'') a)) \<and>
      (attrBuilder h c (Keys [''price:resolution'', ''price:currency'', ''price:type'']) = Inr attrs \<longrightarrow>
         map_of attrs ''currency'' = Some (JStr ''USD'')) \<and>
      ((get c ''price:resolution'' = JUndefined \<or>
        \<not> validator_fails h ''price:resolution'' (get c ''price:resolution'')) \<and>
       (get c ''price:type'' = JUndefined \<or>
        \<not> validator_fails h ''price:type'' (get c ''price:type'')) \<longrightarrow>
         (\<exists>attrs. attrBuilder h c (Keys [''price:resolution'', ''price:currency'', ''price:type''])
                    = Inr attrs)))"
proof (intro conjI impI)
  assume a: "CHR '':'' \<notin> set k \<and> get c k \<noteq> JUndefined"
  then have s: "attr_step h c b k = Inl (InvalidAttr k)" for b
    by (simp add: attr_step_no_colon)
  show "attrBuilder h c (Key k) = Inl (InvalidAttr k)"
    by (simp add: attrBuilder_def s)
  show "attrBuilder h c (Keys (pre @ k # post)) = Inl (InvalidAttr k)"
    if "attrBuilder h c (Keys pre) = Inr a"
    using attrBuilder_after [OF that] by (simp add: s)
  show "\<exists>e. attrBuilder h c (Keys ks) = Inl e" if "k \<in> set ks"
    unfolding attrBuilder_def key_list.simps using that s by (intro reduce_raises) auto
next
  assume u: "get c ''price:currency'' = JStr ''usd''"
  have s: "attr_step h c b ''price:currency'' = Inl (InvalidAttrValue ''price:currency'' (JStr ''usd''))" for b
    using attr_step_currency [OF u] by simp
  show "attrBuilder h c (Key ''price:currency'') = Inl (InvalidAttrValue ''price:currency'' (JStr ''usd''))"
    by (simp add: attrBuilder_def s)
  show "attrBuilder h c (Keys (pre @ ''price:currency'' # post))
           = Inl (InvalidAttrValue ''price:currency'' (JStr ''usd''))"
    if "attrBuilder h c (Keys pre) = Inr a"
    using attrBuilder_after [OF that] by (simp add: s)
  show k: "\<exists>key v. attrBuilder h c (Keys [''price:resolution'', ''price:currency'', ''price:type''])
                  = Inl (InvalidAttrValue key v)"
    using u by (rule price_keys_usd)
  show "\<exists>key v. buildVideoElement h c it
                     = (Some (InvalidAttrValue key v), add_child (Element ''video:video'' [] acc) it)"
    if "run_steps (take 15 (video_steps h)) c [] = (None, acc) \<and> truthy (get c ''price'')"
    using k that price_raises [of h c acc _ it] by blast
next
  assume u: "get c ''price:currency'' = JStr ''USD''"
  have n: "\<not> nullish c" using u get_defined_not_nullish [of c "''price:currency''"] by simp
  have s: "attr_step h c b ''price:currency'' = Inr (AList.update ''currency'' (JStr ''USD'') b)" for b
    using attr_step_currency [OF u] by simp
  show "attrBuilder h c (Key ''price:currency'') = Inr [(''currency'', JStr ''USD'')]"
    by (simp add: attrBuilder_def s)
  show "attrBuilder h c (Keys (pre @ [''price:currency'']))
           = Inr (AList.update ''currency'' (JStr ''USD'') a)"
    if "attrBuilder h c (Keys pre) = Inr a"
    using attrBuilder_after [OF that, of "''price:currency''" "[]"] by (simp add: s)
  show "map_of attrs ''currency'' = Some (JStr ''USD'')"
    if "attrBuilder h c (Keys [''price:resolution'', ''price:currency'', ''price:type'']) = Inr attrs"
    using that n s
    by (auto simp: attrBuilder_def attr_step_price_key update_conv' split: if_splits sum.splits)
  show "\<exists>attrs. attrBuilder h c (Keys [''price:resolution'', ''price:currency'', ''price:type''])
                    = Inr attrs"
    if "(get c ''price:resolution'' = JUndefined \<or>
        \<not> validator_fails h ''price:resolution'' (get c ''price:resolution'')) \<and>
       (get c ''price:type'' = JUndefined \<or>
        \<not> validator_fails h ''price:type'' (get c ''price:type''))"
    using that n s by (auto simp: attrBuilder_def attr_step_price_key)
qed

lemmas video_defs = buildVideoElement_def video_steps_def video_required_def
  video_description_length_def video_head_def video_duration_def video_tag_def
  video_gallery_loc_def opt_element_def opt_element_attrs_def element_with_def
  attrBuilder_def attr_step_def validator_fails_def validators_def allowDeny_def ToString_def
  test_def match_at_def lit_def safeDuration_def js_lt_def js_gt_def nullish_def isArray_def

theorem attrBuilder_keys_witness:
  "attrBuilder host0 (JObj [(''bogus'', JStr ''x''), (''safe'', JBool True)]) (Key ''bogus'')
     = Inl (InvalidAttr ''bogus'') \<and>
   attrBuilder host0 (JObj [(''bogus'', JStr ''x''), (''safe'', JBool True)])
       (Keys [''price:resolution'', ''bogus'', ''price:type''])
     = Inl (InvalidAttr ''bogus'') \<and>
   attrBuilder host0 video_usd (Key ''price:currency'')
     = Inl (InvalidAttrValue ''price:currency'' (JStr ''usd'')) \<and>
   attrBuilder host0 video_usd (Keys [''price:resolution'', ''price:currency'', ''price:type''])
     = Inl (InvalidAttrValue ''price:currency'' (JStr ''usd'')) \<and>
   buildVideoElement host0 video_usd (new_item conf_safe_15 JUndefined)
     = (Some (InvalidAttrValue ''price:currency'' (JStr ''usd'')),
        add_child (Element ''video:video'' []
            [Element ''video:thumbnail_loc'' [] [Text (JStr ''t.jpg'')],
             Element ''video:title'' [] [CData (JStr ''T'')],
             Element ''video:description'' [] [CData (JStr ''D'')]])
          (new_item conf_safe_15 JUndefined)) \<and>
   attrBuilder host0 video_USD (Key ''price:currency'') = Inr [(''currency'', JStr ''USD'')] \<and>
   attrBuilder host0 video_USD (Keys [''price:resolution'', ''price:currency''])
     = Inr [(''resolution'', JStr ''HD''), (''currency'', JStr ''USD'')] \<and>
   attrBuilder host0 video_USD (Keys [''price:resolution'', ''price:currency'', ''price:type''])
     = Inr [(''resolution'', JStr ''HD''), (''currency'', JStr ''USD''), (''type'', JStr ''rent'')]"
proof -
  let ?b = "JObj [(''bogus'', JStr ''x''), (''safe'', JBool True)]"
  let ?kids = "[Element ''video:thumbnail_loc'' [] [Text (JStr ''t.jpg'')],
             Element ''video:title'' [] [CData (JStr ''T'')],
             Element ''video:description'' [] [CData (JStr ''D'')]]"
  have g: "get ?b ''bogus'' \<noteq> JUndefined" "CHR '':'' \<notin> set ''bogus''"
    "get video_usd ''price:currency'' = JStr ''usd''" "truthy (get video_usd ''price'')"
    "get video_USD ''price:currency'' = JStr ''USD''"
    by (simp_all add: video_usd_def video_USD_def video_tTD_def)
  have p0: "attrBuilder host0 ?b (Keys [''price:resolution'']) = Inr []"
    by (simp add: attrBuilder_def attr_step_def nullish_def)
  have p1: "attrBuilder host0 video_usd (Keys [''price:resolution'']) = Inr []"
    by (simp add: attrBuilder_def attr_step_def nullish_def video_usd_def video_tTD_def)
  have p2: "attrBuilder host0 video_USD (Keys [''price:resolution'']) = Inr [(''resolution'', JStr ''HD'')]"
    by (simp add: video_defs video_USD_def video_tTD_def)
  have r: "run_steps (take 15 (video_steps host0)) video_usd [] = (None, ?kids)"
    by (simp add: video_defs video_usd_def video_tTD_def)
  have b: "buildVideoElement host0 video_usd (new_item conf_safe_15 JUndefined)
     = (Some (InvalidAttrValue ''price:currency'' (JStr ''usd'')),
        add_child (Element ''video:video'' [] ?kids) (new_item conf_safe_15 JUndefined))"
    by (simp add: video_defs video_usd_def video_tTD_def)
  have t: "attrBuilder host0 video_USD (Keys [''price:resolution'', ''price:currency'', ''price:type''])
     = Inr [(''resolution'', JStr ''HD''), (''currency'', JStr ''USD''), (''type'', JStr ''rent'')]"
    by (simp add: video_defs video_USD_def video_tTD_def)
  show ?thesis
    using attrBuilder_keys [of "''bogus''" ?b host0 "[''price:resolution'']" "[]" "[''price:type'']"
        "[''price:resolution'', ''bogus'', ''price:type'']"] g(1,2) p0
      attrBuilder_keys [of "''bogus''" video_usd host0 "[''price:resolution'']" "[]" "[''price:type'']"
        "[]" ?kids "new_item conf_safe_15 JUndefined"] g(3,4) p1 r b
      attrBuilder_keys [of "''bogus''" video_USD host0 "[''price:resolution'']"
        "[(''resolution'', JStr ''HD'')]" "[]" "[]" "[]" "new_item conf_safe_15 JUndefined"
        "[(''resolution'', JStr ''HD''), (''currency'', JStr ''USD''), (''type'', JStr ''rent'')]"] g(5) p2 t
    by simp
qed

section \<open>The validator of price:type\<close>

lemma match_here_lit: "match_here (lit p) s = Some r \<longleftrightarrow> s = p @ r"
proof (induction p arbitrary: s)
  case Nil
  then show ?case by (auto simp: lit_def)
next
  case (Cons a p)
  then show ?case by (cases s) (auto simp: lit_def)
qed

lemma match_at_lit: "match_at (lit p) e s \<longleftrightarrow> (\<exists>r. s = p @ r \<and> (e \<longrightarrow> r = []))"
proof (cases "match_here (lit p) s")
  case None
  then have "\<And>r. s \<noteq> p @ r" using match_here_lit [of p s] by auto
  with None show ?thesis by (simp add: match_at_def)
next
  case (Some r)
  then have "s = p @ r" by (simp add: match_here_lit)
  with Some show ?thesis by (auto simp: match_at_def)
qed

lemma match_from_lit: "match_from (lit p) e s \<longleftrightarrow> (\<exists>u r. s = u @ p @ r \<and> (e \<longrightarrow> r = []))"
proof (induction s)
  case Nil
  then show ?case by (auto simp: match_at_lit)
next
  case (Cons c s)
  show ?case
  proof
    assume "match_from (lit p) e (c # s)"
    then consider "match_at (lit p) e (c # s)" | "match_from (lit p) e s" by auto
    then show "\<exists>u r. c # s = u @ p @ r \<and> (e \<longrightarrow> r = [])"
    proof cases
      case 1
      then obtain r where "c # s = [] @ p @ r \<and> (e \<longrightarrow> r = [])" by (auto simp: match_at_lit)
      then show ?thesis by blast
    next
      case 2
      then obtain u r where "s = u @ p @ r \<and> (e \<longrightarrow> r = [])" using Cons.IH by blast
      then have "c # s = (c # u) @ p @ r \<and> (e \<longrightarrow> r = [])" by simp
      then show ?thesis by blast
    qed
  next
    assume "\<exists>u r. c # s = u @ p @ r \<and> (e \<longrightarrow> r = [])"
    then obtain u r where ur: "c # s = u @ p @ r" "e \<longrightarrow> r = []" by blast
    show "match_from (lit p) e (c # s)"
    proof (cases u)
      case Nil
      with ur have "match_at (lit p) e (c # s)" by (auto simp: match_at_lit)
      then show ?thesis by simp
    next
      case (Cons a u')
      with ur have "s = u' @ p @ r" by simp
      with ur(2) have "match_from (lit p) e s" using Cons.IH by blast
      then show ?thesis by simp
    qed
  qed
qed

text \<open>What the regular expression of price:type accepts.\<close>

lemma test_price_type:
  "test [(True, lit ''rent'', False), (False, lit ''purchase'', False),
         (False, lit ''RENT'', False), (False, lit ''PURCHASE'', True)] s \<longleftrightarrow>
     (\<exists>r. s = ''rent'' @ r) \<or> (\<exists>u r. s = u @ ''purchase'' @ r) \<or>
     (\<exists>u r. s = u @ ''RENT'' @ r) \<or> (\<exists>u. s = u @ ''PURCHASE'')"
  by (simp add: test_def match_at_lit match_from_lit)


lemma rent_spellings:
  assumes "map lower s = ''rent''"
  shows "test [(True, lit ''rent'', False), (False, lit ''purchase'', False),
               (False, lit ''RENT'', False), (False, lit ''PURCHASE'', True)] s
         \<longleftrightarrow> s = ''rent'' \<or> s = ''RENT''"
proof -
  have "length (map lower s) = length ''rent''" using assms by simp
  then have len: "length s = 4" by simp
  show ?thesis unfolding test_price_type
  proof
    assume "(\<exists>r. s = ''rent'' @ r) \<or> (\<exists>u r. s = u @ ''purchase'' @ r) \<or>
            (\<exists>u r. s = u @ ''RENT'' @ r) \<or> (\<exists>u. s = u @ ''PURCHASE'')"
    then show "s = ''rent'' \<or> s = ''RENT''" using len by auto
  next
    assume "s = ''rent'' \<or> s = ''RENT''"
    then have "s = ''rent'' @ [] \<or> s = [] @ ''RENT'' @ []" by simp
    then show "(\<exists>r. s = ''rent'' @ r) \<or> (\<exists>u r. s = u @ ''purchase'' @ r) \<or>
            (\<exists>u r. s = u @ ''RENT'' @ r) \<or> (\<exists>u. s = u @ ''PURCHASE'')" by blast
  qed
qed


lemma purchase_spellings:
  assumes "map lower s = ''purchase''"
  shows "test [(True, lit ''rent'', False), (False, lit ''purchase'', False),
               (False, lit ''RENT'', False), (False, lit ''PURCHASE'', True)] s
         \<longleftrightarrow> s = ''purchase'' \<or> s = ''PURCHASE''"
proof -
  have "length (map lower s) = length ''purchase''" using assms by simp
  then have len: "length s = 8" by simp
  have no_rent: "s \<noteq> ''rent'' @ r" for r
  proof
    assume "s = ''rent'' @ r"
    then have "map lower s = map lower ''rent'' @ map lower r" by simp
    with assms show False by (simp add: lower_def)
  qed
  have no_RENT: "s \<noteq> u @ ''RENT'' @ r" for u r
  proof
    assume s: "s = u @ ''RENT'' @ r"
    define k where "k = length u"
    from s len have k: "k \<le> 4" by (simp add: k_def)
    from s have "map lower s = map lower u @ ''rent'' @ map lower r" by (simp add: lower_def)
    with assms have e: "''purchase'' = map lower u @ ''rent'' @ map lower r" by simp
    have n: "''purchase'' ! k = CHR ''r''" "''purchase'' ! (Suc k) = CHR ''e''"
      unfolding k_def by (subst e, simp add: nth_append)+
    from k consider "k = 0" | "k = 1" | "k = 2" | "k = 3" | "k = 4"
      by linarith
    then show False using n by cases simp_all
  qed
  show ?thesis unfolding test_price_type
  proof
    assume "(\<exists>r. s = ''rent'' @ r) \<or> (\<exists>u r. s = u @ ''purchase'' @ r) \<or>
            (\<exists>u r. s = u @ ''RENT'' @ r) \<or> (\<exists>u. s = u @ ''PURCHASE'')"
    then have "(\<exists>u r. s = u @ ''purchase'' @ r) \<or> (\<exists>u. s = u @ ''PURCHASE'')"
      using no_rent no_RENT by blast
    then show "s = ''purchase'' \<or> s = ''PURCHASE''" using len by auto
  next
    assume "s = ''purchase'' \<or> s = ''PURCHASE''"
    then have "s = [] @ ''purchase'' @ [] \<or> s = [] @ ''PURCHASE''" by simp
    then show "(\<exists>r. s = ''rent'' @ r) \<or> (\<exists>u r. s = u @ ''purchase'' @ r) \<or>
            (\<exists>u r. s = u @ ''RENT'' @ r) \<or> (\<exists>u. s = u @ ''PURCHASE'')" by blast
  qed
qed

lemma starts_with_iff: "starts_with s w \<longleftrightarrow> (\<exists>r. s = w @ r)"
  by (induction s w rule: starts_with.induct) auto

lemma occurs_in_iff: "occurs_in w s \<longleftrightarrow> (\<exists>u r. s = u @ w @ r)"
proof (induction s)
  case Nil
  then show ?case by auto
next
  case (Cons x s)
  show ?case
  proof
    assume "occurs_in w (x # s)"
    then consider "starts_with (x # s) w" | "occurs_in w s" by auto
    then show "\<exists>u r. x # s = u @ w @ r"
    proof cases
      case 1
      then obtain r where "x # s = [] @ w @ r" by (auto simp: starts_with_iff)
      then show ?thesis by blast
    next
      case 2
      then obtain u r where "s = u @ w @ r" using Cons.IH by blast
      then have "x # s = (x # u) @ w @ r" by simp
      then show ?thesis by blast
    qed
  next
    assume "\<exists>u r. x # s = u @ w @ r"
    then obtain u r where ur: "x # s = u @ w @ r" by blast
    show "occurs_in w (x # s)"
    proof (cases u)
      case Nil
      with ur have "starts_with (x # s) w" by (auto simp: starts_with_iff)
      then show ?thesis by simp
    next
      case (Cons y u')
      with ur have "s = u' @ w @ r" by simp
      then have "occurs_in w s" using Cons.IH by blast
      then show ?thesis by simp
    qed
  qed
qed

text \<open>A value in which none of the four words occurs is refused.\<close>

lemma no_word_refused:
  assumes "\<not> occurs_in ''rent'' s" "\<not> occurs_in ''purchase'' s"
    "\<not> occurs_in ''RENT'' s" "\<not> occurs_in ''PURCHASE'' s"
  shows "\<not> test [(True, lit ''rent'', False), (False, lit ''purchase'', False),
                  (False, lit ''RENT'', False), (False, lit ''PURCHASE'', True)] s"
proof
  assume "test [(True, lit ''rent'', False), (False, lit ''purchase'', False),
                (False, lit ''RENT'', False), (False, lit ''PURCHASE'', True)] s"
  then consider r where "s = [] @ ''rent'' @ r" | u r where "s = u @ ''purchase'' @ r"
    | u r where "s = u @ ''RENT'' @ r" | u where "s = u @ ''PURCHASE'' @ []"
    unfolding test_price_type by auto
  then show False using assms unfolding occurs_in_iff by cases blast+
qed

lemma four_words_accepted:
  assumes "s \<in> {''rent'', ''purchase'', ''RENT'', ''PURCHASE''}"
  shows "test [(True, lit ''rent'', False), (False, lit ''purchase'', False),
               (False, lit ''RENT'', False), (False, lit ''PURCHASE'', True)] s"
  using assms by (auto simp: test_def match_at_def lit_def)


lemma attr_step_type:
  assumes "get c ''price:type'' = JStr s"
  shows "attr_step h c a ''price:type'' =
     (if test [(True, lit ''rent'', False), (False, lit ''purchase'', False),
               (False, lit ''RENT'', False), (False, lit ''PURCHASE'', True)] s
      then Inr (AList.update ''type'' (JStr s) a)
      else Inl (InvalidAttrValue ''price:type'' (JStr s)))"
proof -
  from assms have "\<not> nullish c" by (auto simp: nullish_def)
  with assms show ?thesis
    by (simp add: attr_step_def validator_fails_def validators_def ToString_def)
qed

text \<open>For the values the theorem speaks of, the validator accepts exactly the four words.\<close>

lemma price_type_decided:
  assumes "s \<in> {''rent'', ''purchase'', ''RENT'', ''PURCHASE''} \<or>
     (\<not> occurs_in ''rent'' s \<and> \<not> occurs_in ''purchase'' s \<and>
      \<not> occurs_in ''RENT'' s \<and> \<not> occurs_in ''PURCHASE'' s) \<or>
     equal_ignoring_case s ''rent'' \<or> equal_ignoring_case s ''purchase''"
  shows "test [(True, lit ''rent'', False), (False, lit ''purchase'', False),
               (False, lit ''RENT'', False), (False, lit ''PURCHASE'', True)] s
         \<longleftrightarrow> s \<in> {''rent'', ''purchase'', ''RENT'', ''PURCHASE''}"
proof -
  have l: "map lower ''rent'' = ''rent''" "map lower ''purchase'' = ''purchase''"
    by (simp_all add: lower_def)
  from assms consider "s \<in> {''rent'', ''purchase'', ''RENT'', ''PURCHASE''}"
    | "\<not> occurs_in ''rent'' s \<and> \<not> occurs_in ''purchase'' s \<and>
       \<not> occurs_in ''RENT'' s \<and> \<not> occurs_in ''PURCHASE'' s"
    | "map lower s = ''rent''" | "map lower s = ''purchase''"
    unfolding equal_ignoring_case_def l by blast
  then show ?thesis
  proof cases
    case 1
    then show ?thesis using four_words_accepted by blast
  next
    case 2
    then have "s \<notin> {''rent'', ''purchase'', ''RENT'', ''PURCHASE''}" by auto
    with 2 show ?thesis using no_word_refused by blast
  next
    case 3
    then have "s \<noteq> ''purchase''" "s \<noteq> ''PURCHASE''" by auto
    with 3 show ?thesis using rent_spellings [of s] by auto
  next
    case 4
    then have "s \<noteq> ''rent''" "s \<noteq> ''RENT''" by auto
    with 4 show ?thesis using purchase_spellings [of s] by auto
  qed
qed

text \<open>
  C5, as the code has it. The regular expression of \<^verbatim>\<open>price:type\<close> lists the two words
  in lower case and in upper case and has no flag that ignores case. A value that is one
  of \<^verbatim>\<open>rent\<close>, \<^verbatim>\<open>purchase\<close>, \<^verbatim>\<open>RENT\<close>, \<^verbatim>\<open>PURCHASE\<close> is accepted and stored under
  \<^verbatim>\<open>type\<close>. A value in which none of these four words occurs fails with
  \<open>InvalidAttrValue\<close>, and so does every spelling of \<^verbatim>\<open>rent\<close> or \<^verbatim>\<open>purchase\<close> in another
  mix of cases. This holds for a call with the one key and for the array of the price
  keys, where the type comes last; there a refused value makes the build of the video
  fail. (Nothing is said of a value that holds one of the words and more.)
\<close>

theorem price_type_values:
  "get c ''price:type'' = JStr s \<and>
   (s \<in> {''rent'', ''purchase'', ''RENT'', ''PURCHASE''} \<or>
    (\<not> occurs_in ''rent'' s \<and> \<not> occurs_in ''purchase'' s \<and>
     \<not> occurs_in ''RENT'' s \<and> \<not> occurs_in ''PURCHASE'' s) \<or>
    equal_ignoring_case s ''rent'' \<or> equal_ignoring_case s ''purchase'') \<longrightarrow>
     attrBuilder h c (Key ''price:type'') =
       (if s \<in> {''rent'', ''purchase'', ''RENT'', ''PURCHASE''} then Inr [(''type'', JStr s)]
        else Inl (InvalidAttrValue ''price:type'' (JStr s))) \<and>
     (attrBuilder h c (Keys pre) = Inr a \<longrightarrow>
        attrBuilder h c (Keys (pre @ [''price:type''])) =
          (if s \<in> {''rent'', ''purchase'', ''RENT'', ''PURCHASE''}
           then Inr (AList.update ''type'' (JStr s) a)
           else Inl (InvalidAttrValue ''price:type'' (JStr s)))) \<and>
     ((get c ''price:resolution'' = JUndefined \<or>
       \<not> validator_fails h ''price:resolution'' (get c ''price:resolution'')) \<and>
      (get c ''price:currency'' = JUndefined \<or>
       \<not> validator_fails h ''price:currency'' (get c ''price:currency'')) \<longrightarrow>
        (if s \<in> {''rent'', ''purchase'', ''RENT'', ''PURCHASE''}
         then (\<exists>attrs. attrBuilder h c (Keys [''price:resolution'', ''price:currency'', ''price:type''])
                         = Inr attrs \<and> map_of attrs ''type'' = Some (JStr s))
         else attrBuilder h c (Keys [''price:resolution'', ''price:currency'', ''price:type''])
                = Inl (InvalidAttrValue ''price:type'' (JStr s))) \<and>
        (s \<notin> {''rent'', ''purchase'', ''RENT'', ''PURCHASE''} \<and>
         run_steps (take 15 (video_steps h)) c [] = (None, acc) \<and> truthy (get c ''price'') \<longrightarrow>
           buildVideoElement h c it
             = (Some (InvalidAttrValue ''price:type'' (JStr s)),
                add_child (Element ''video:video'' [] acc) it)))"
proof (intro impI)
  assume a: "get c ''price:type'' = JStr s \<and>
   (s \<in> {''rent'', ''purchase'', ''RENT'', ''PURCHASE''} \<or>
    (\<not> occurs_in ''rent'' s \<and> \<not> occurs_in ''purchase'' s \<and>
     \<not> occurs_in ''RENT'' s \<and> \<not> occurs_in ''PURCHASE'' s) \<or>
    equal_ignoring_case s ''rent'' \<or> equal_ignoring_case s ''purchase'')"
  then have g: "get c ''price:type'' = JStr s" by simp
  have n: "\<not> nullish c" using g by (auto simp: nullish_def)
  have st: "attr_step h c b ''price:type'' =
     (if s \<in> {''rent'', ''purchase'', ''RENT'', ''PURCHASE''}
      then Inr (AList.update ''type'' (JStr s) b)
      else Inl (InvalidAttrValue ''price:type'' (JStr s)))" for b
    using attr_step_type [OF g, of h b] price_type_decided [of s] a by simp
  have one: "attrBuilder h c (Key ''price:type'') =
       (if s \<in> {''rent'', ''purchase'', ''RENT'', ''PURCHASE''} then Inr [(''type'', JStr s)]
        else Inl (InvalidAttrValue ''price:type'' (JStr s)))"
    by (simp add: attrBuilder_def st)
  have last: "attrBuilder h c (Keys (pre @ [''price:type''])) =
          (if s \<in> {''rent'', ''purchase'', ''RENT'', ''PURCHASE''}
           then Inr (AList.update ''type'' (JStr s) a)
           else Inl (InvalidAttrValue ''price:type'' (JStr s)))"
    if "attrBuilder h c (Keys pre) = Inr a"
    using attrBuilder_after [OF that, of "''price:type''" "[]"] by (simp add: st)
  have three: "(if s \<in> {''rent'', ''purchase'', ''RENT'', ''PURCHASE''}
         then (\<exists>attrs. attrBuilder h c (Keys [''price:resolution'', ''price:currency'', ''price:type''])
                         = Inr attrs \<and> map_of attrs ''type'' = Some (JStr s))
         else attrBuilder h c (Keys [''price:resolution'', ''price:currency'', ''price:type''])
                = Inl (InvalidAttrValue ''price:type'' (JStr s)))"
    if "(get c ''price:resolution'' = JUndefined \<or>
       \<not> validator_fails h ''price:resolution'' (get c ''price:resolution'')) \<and>
      (get c ''price:currency'' = JUndefined \<or>
       \<not> validator_fails h ''price:currency'' (get c ''price:currency''))"
    using that n st by (auto simp: attrBuilder_def attr_step_price_key update_conv')
  have build: "buildVideoElement h c it
             = (Some (InvalidAttrValue ''price:type'' (JStr s)),
                add_child (Element ''video:video'' [] acc) it)"
    if "(get c ''price:resolution'' = JUndefined \<or>
       \<not> validator_fails h ''price:resolution'' (get c ''price:resolution'')) \<and>
      (get c ''price:currency'' = JUndefined \<or>
       \<not> validator_fails h ''price:currency'' (get c ''price:currency''))"
      "s \<notin> {''rent'', ''purchase'', ''RENT'', ''PURCHASE''} \<and>
         run_steps (take 15 (video_steps h)) c [] = (None, acc) \<and> truthy (get c ''price'')"
    using three [OF that(1)] that(2) price_raises [of h c acc _ it] by simp
  show "attrBuilder h c (Key ''price:type'') =
       (if s \<in> {''rent'', ''purchase'', ''RENT'', ''PURCHASE''} then Inr [(''type'', JStr s)]
        else Inl (InvalidAttrValue ''price:type'' (JStr s))) \<and>
     (attrBuilder h c (Keys pre) = Inr a \<longrightarrow>
        attrBuilder h c (Keys (pre @ [''price:type''])) =
          (if s \<in> {''rent'', ''purchase'', ''RENT'', ''PURCHASE''}
           then Inr (AList.update ''type'' (JStr s) a)
           else Inl (InvalidAttrValue ''price:type'' (JStr s)))) \<and>
     ((get c ''price:resolution'' = JUndefined \<or>
       \<not> validator_fails h ''price:resolution'' (get c ''price:resolution'')) \<and>
      (get c ''price:currency'' = JUndefined \<or>
       \<not> validator_fails h ''price:currency'' (get c ''price:currency'')) \<longrightarrow>
        (if s \<in> {''rent'', ''purchase'', ''RENT'', ''PURCHASE''}
         then (\<exists>attrs. attrBuilder h c (Keys [''price:resolution'', ''price:currency'', ''price:type''])
                         = Inr attrs \<and> map_of attrs ''type'' = Some (JStr s))
         else attrBuilder h c (Keys [''price:resolution'', ''price:currency'', ''price:type''])
                = Inl (InvalidAttrValue ''price:type'' (JStr s))) \<and>
        (s \<notin> {''rent'', ''purchase'', ''RENT'', ''PURCHASE''} \<and>
         run_steps (take 15 (video_steps h)) c [] = (None, acc) \<and> truthy (get c ''price'') \<longrightarrow>
           buildVideoElement h c it
             = (Some (InvalidAttrValue ''price:type'' (JStr s)),
                add_child (Element ''video:video'' [] acc) it)))"
    using one last three build by blast
qed

text \<open>
  The claim as stated fails for \<^verbatim>\<open>Rent\<close>, which equals \<^verbatim>\<open>rent\<close> up to case and is
  refused, in the call the video builder makes and so in the build.
\<close>

theorem price_type_values_counterexample:
  "equal_ignoring_case ''Rent'' ''rent'' \<and>
   attrBuilder host0 (video_priced ''Rent'') (Keys [''price:resolution'', ''price:currency'', ''price:type''])
     = Inl (InvalidAttrValue ''price:type'' (JStr ''Rent'')) \<and>
   fst (buildVideoElement host0 (video_priced ''Rent'') (new_item conf_safe_15 JUndefined))
     = Some (InvalidAttrValue ''price:type'' (JStr ''Rent''))"
  by (simp add: equal_ignoring_case_def lower_def video_defs video_priced_def video_tTD_def)

theorem price_type_values_witness:
  "attrBuilder host0 (video_priced ''RENT'') (Keys [''price:resolution'', ''price:currency'', ''price:type''])
     = Inr [(''type'', JStr ''RENT'')] \<and>
   attrBuilder host0 (video_priced ''purchase'') (Key ''price:type'') = Inr [(''type'', JStr ''purchase'')] \<and>
   attrBuilder host0 (video_priced ''Purchase'') (Keys [''price:resolution'', ''price:currency'', ''price:type''])
     = Inl (InvalidAttrValue ''price:type'' (JStr ''Purchase'')) \<and>
   attrBuilder host0 (video_priced ''own'') (Keys [''price:resolution'', ''price:currency'', ''price:type''])
     = Inl (InvalidAttrValue ''price:type'' (JStr ''own'')) \<and>
   buildVideoElement host0 (video_priced ''own'') (new_item conf_safe_15 JUndefined)
     = (Some (InvalidAttrValue ''price:type'' (JStr ''own'')),
        add_child (Element ''video:video'' []
            [Element ''video:thumbnail_loc'' [] [Text (JStr ''t.jpg'')],
             Element ''video:title'' [] [CData (JStr ''T'')],
             Element ''video:description'' [] [CData (JStr ''D'')]])
          (new_item conf_safe_15 JUndefined))"
proof -
  let ?kids = "[Element ''video:thumbnail_loc'' [] [Text (JStr ''t.jpg'')],
             Element ''video:title'' [] [CData (JStr ''T'')],
             Element ''video:description'' [] [CData (JStr ''D'')]]"
  have g: "get (video_priced s) ''price:type'' = JStr s"
    "get (video_priced s) ''price:resolution'' = JUndefined"
    "get (video_priced s) ''price:currency'' = JUndefined"
    "truthy (get (video_priced s) ''price'')" for s
    by (simp_all add: video_priced_def video_tTD_def)
  have r: "run_steps (take 15 (video_steps host0)) (video_priced ''own'') [] = (None, ?kids)"
    by (simp add: video_defs video_priced_def video_tTD_def)
  have e: "equal_ignoring_case ''Purchase'' ''purchase''"
    "\<not> occurs_in ''rent'' ''own''" "\<not> occurs_in ''purchase'' ''own''"
    "\<not> occurs_in ''RENT'' ''own''" "\<not> occurs_in ''PURCHASE'' ''own''"
    by (simp_all add: equal_ignoring_case_def lower_def)
  have t: "attrBuilder host0 (video_priced ''RENT'') (Keys [''price:resolution'', ''price:currency'', ''price:type''])
     = Inr [(''type'', JStr ''RENT'')]"
    by (simp add: video_defs video_priced_def video_tTD_def)
  show ?thesis
    using price_type_values [of "video_priced ''RENT''" "''RENT''" host0 "[]" "[]" ?kids
        "new_item conf_safe_15 JUndefined"]
      price_type_values [of "video_priced ''purchase''" "''purchase''" host0 "[]" "[]" ?kids
        "new_item conf_safe_15 JUndefined"]
      price_type_values [of "video_priced ''Purchase''" "''Purchase''" host0 "[]" "[]" ?kids
        "new_item conf_safe_15 JUndefined"]
      price_type_values [of "video_priced ''own''" "''own''" host0 "[]" "[]" ?kids
        "new_item conf_safe_15 JUndefined"]
      g r e t
    by simp
qed

section \<open>The constructor\<close>

text \<open>
  C8. A configuration whose \<^verbatim>\<open>url\<close> is missing (or otherwise falsy) makes the
  constructor fail with \<open>NoURLError\<close>, and every item the constructor gives has a
  truthy \<open>loc\<close>. (\<^verbatim>\<open>null\<close> is no configuration: the constructor cannot read it.)
\<close>

theorem constructor_needs_url:
  "(c \<noteq> JNull \<and> \<not> truthy (get c ''url'') \<longrightarrow> constructor h c = Inl NoURLError) \<and>
   (constructor h c = Inr it \<longrightarrow> truthy (loc it))"
  by (auto simp: constructor_def new_item_def Let_def split: if_splits sum.splits)

theorem constructor_needs_url_witness:
  "constructor host0 (JObj [(''changefreq'', JStr ''daily''), (''priority'', JNum (Fin (1 / 2)))])
     = Inl NoURLError \<and>
   constructor host0 (JObj [(''url'', JStr [])]) = Inl NoURLError \<and>
   constructor host0 conf_safe_15 = Inr (new_item conf_safe_15 JUndefined) \<and>
   truthy (loc (new_item conf_safe_15 JUndefined))"
proof -
  have c: "constructor host0 conf_safe_15 = Inr (new_item conf_safe_15 JUndefined)"
    by (simp add: constructor_def lastmod_of_def conf_safe_15_def Let_def)
  show ?thesis
    using constructor_needs_url [of "JObj [(''changefreq'', JStr ''daily''), (''priority'', JNum (Fin (1 / 2)))]" host0]
      constructor_needs_url [of "JObj [(''url'', JStr [])]" host0]
      constructor_needs_url [of conf_safe_15 host0 "new_item conf_safe_15 JUndefined"] c
    by simp
qed

lemma constructor_item:
  assumes "constructor h c = Inr it"
  shows "is_element (url it)" and "priority it = get c ''priority''" and "news it = or_null (get c ''news'')"
  using assms by (auto simp: constructor_def new_item_def Let_def split: if_splits sum.splits)

lemma constructor_ok:
  assumes "c \<noteq> JNull" "truthy (get c ''url'')" "lastmod_of h c = Inr lm"
    "truthy (get c ''safe'') \<or> \<not> truthy (get c ''changefreq'') \<or> get c ''changefreq'' \<in> set CHANGEFREQ"
    "truthy (get c ''safe'') \<or> \<not> truthy (get c ''priority'') \<or>
     (js_ge h (get c ''priority'') 0 \<and> js_le h (get c ''priority'') 1 \<and> typeof (get c ''priority'') = ''number'')"
  shows "constructor h c = Inr (new_item c lm)"
proof -
  have "c \<noteq> JUndefined" using assms(2) by auto
  then show ?thesis using assms by (auto simp: constructor_def Let_def)
qed

section \<open>The loop of buildXML and the priority element\<close>

lemma is_element_append_child: "is_element x \<Longrightarrow> is_element (append_child c x)"
  by (cases x) auto

lemma children_append_child: "is_element x \<Longrightarrow> children (append_child c x) = children x @ [c]"
  by (cases x) auto

lemma keeps_refl: "is_element (url it) \<Longrightarrow> keeps it it"
  by (simp add: keeps_def)

lemma keeps_trans: "keeps a b \<Longrightarrow> keeps b c \<Longrightarrow> keeps a c"
  by (simp add: keeps_def)

lemma keeps_element: "keeps a b \<Longrightarrow> is_element (url b)"
  by (simp add: keeps_def)

lemma add_child_keeps:
  "is_element (url it) \<Longrightarrow> name_of c \<noteq> ''priority'' \<Longrightarrow> keeps it (add_child c it)"
  by (simp add: keeps_def add_child_def priority_elements_def is_element_append_child
      children_append_child)

lemma forEach_keeps:
  assumes f: "\<And>x a r b. is_element (url a) \<Longrightarrow> f x a = (r, b) \<Longrightarrow> keeps a b"
  shows "is_element (url it) \<Longrightarrow> forEach f xs it = (r, it') \<Longrightarrow> keeps it it'"
proof (induction xs arbitrary: it)
  case Nil
  then show ?case by (simp add: keeps_refl)
next
  case (Cons x xs)
  obtain r1 it1 where s: "f x it = (r1, it1)" by (cases "f x it")
  with Cons.prems(1) have k: "keeps it it1" using f by blast
  show ?case
  proof (cases r1)
    case None
    with s Cons.prems(2) have "forEach f xs it1 = (r, it')" by simp
    with Cons.IH k show ?thesis using keeps_trans keeps_element by blast
  next
    case (Some e)
    with s Cons.prems(2) have "it' = it1" by simp
    with k show ?thesis by simp
  qed
qed

lemma forEach_of_keeps:
  assumes f: "\<And>x a r b. is_element (url a) \<Longrightarrow> f x a = (r, b) \<Longrightarrow> keeps a b"
  shows "is_element (url it) \<Longrightarrow> forEach_of f v it = (r, it') \<Longrightarrow> keeps it it'"
  using forEach_keeps [of f, OF f]
  by (auto simp: forEach_of_def keeps_refl split: jsval.splits)

lemma image_step_keeps: "is_element (url a) \<Longrightarrow> image_step x a = (r, b) \<Longrightarrow> keeps a b"
  by (auto simp: image_step_def keeps_refl add_child_keeps split: if_splits)

lemma link_step_keeps: "is_element (url a) \<Longrightarrow> link_step x a = (r, b) \<Longrightarrow> keeps a b"
  by (auto simp: link_step_def keeps_refl add_child_keeps split: if_splits)

lemma buildVideoElement_keeps:
  "is_element (url a) \<Longrightarrow> buildVideoElement h x a = (r, b) \<Longrightarrow> keeps a b"
  by (auto simp: buildVideoElement_def add_child_keeps split: prod.splits)

lemma buildNewsElement_keeps:
  "is_element (url a) \<Longrightarrow> buildNewsElement x a = (r, b) \<Longrightarrow> keeps a b"
  by (auto simp: buildNewsElement_def add_child_keeps split: prod.splits)

lemma keeps_img: "is_element (url a) \<Longrightarrow> keeps a (a\<lparr>img := x\<rparr>)"
  by (simp add: keeps_def)

lemma keeps_video: "is_element (url a) \<Longrightarrow> keeps a (a\<lparr>video := x\<rparr>)"
  by (simp add: keeps_def)

lemma build_prop_keeps:
  assumes "p \<noteq> ''priority''" "is_element (url it)" "build_prop h p it = (r, it')"
  shows "keeps it it'"
proof -
  have img: "forEach_of image_step v (it\<lparr>img := x\<rparr>) = (r, it') \<Longrightarrow> keeps it it'" for v x
    using forEach_of_keeps [of image_step "it\<lparr>img := x\<rparr>" v r it'] image_step_keeps
      keeps_img [OF assms(2), of x] keeps_trans assms(2) by auto
  have vid: "forEach_of (buildVideoElement h) v (it\<lparr>video := x\<rparr>) = (r, it') \<Longrightarrow> keeps it it'" for v x
    using forEach_of_keeps [of "buildVideoElement h" "it\<lparr>video := x\<rparr>" v r it'] buildVideoElement_keeps
      keeps_video [OF assms(2), of x] keeps_trans assms(2) by auto
  have lnk: "forEach_of link_step v it = (r, it') \<Longrightarrow> keeps it it'" for v
    using forEach_of_keeps [of link_step it v r it'] link_step_keeps assms(2) by auto
  from assms show ?thesis
    unfolding build_prop_def
    by (auto simp: keeps_refl add_child_keeps buildNewsElement_keeps img vid lnk
        split: if_splits option.splits)
qed

lemma build_props_keeps:
  "''priority'' \<notin> set ps \<Longrightarrow> is_element (url it) \<Longrightarrow> build_props h ps it = (r, it') \<Longrightarrow> keeps it it'"
proof (induction ps arbitrary: it)
  case Nil
  then show ?case by (simp add: keeps_refl)
next
  case (Cons p ps)
  obtain r1 it1 where s: "build_prop h p it = (r1, it1)" by (cases "build_prop h p it")
  with Cons.prems have k: "keeps it it1" using build_prop_keeps [of p it h r1 it1] by auto
  show ?case
  proof (cases r1)
    case None
    with s Cons.prems(3) have "build_props h ps it1 = (r, it')" by simp
    with Cons.IH [of it1] Cons.prems(1) k show ?thesis using keeps_trans keeps_element by auto
  next
    case (Some e)
    with s Cons.prems(3) have "it' = it1" by simp
    with k show ?thesis by simp
  qed
qed

lemma build_props_None_append:
  "build_props h (ps @ qs) it = (case build_props h ps it of (Some e, a) \<Rightarrow> (Some e, a) | (None, a) \<Rightarrow> build_props h qs a)"
  by (induction ps arbitrary: it) (auto split: prod.splits option.splits)

text \<open>What the turn for priority appends.\<close>

lemma build_prop_priority:
  "build_prop h ''priority'' it =
     (None,
      if js_ge h (priority it) 0 \<and> js_le h (priority it) 1
      then add_child (Element ''priority'' [] [Text (JStr (toFixed1 h (parseFloat h (priority it))))]) it
      else if truthy (priority it) then add_child (Element ''priority'' [] [Text (priority it)]) it
      else it)"
  by (simp add: build_prop_def this_at_def)

lemma priority_elements_add:
  "is_element (url it) \<Longrightarrow>
   priority_elements (url (add_child (Element ''priority'' as cs) it)) =
     priority_elements (url it) @ [Element ''priority'' as cs]"
  by (simp add: priority_elements_def add_child_def children_append_child)

lemma buildXML_priority:
  assumes el: "is_element (url it)" and b: "buildXML h it = (Inr node, it')"
  shows "priority_elements node =
     (if js_ge h (priority it) 0 \<and> js_le h (priority it) 1
      then [Element ''priority'' [] [Text (JStr (toFixed1 h (parseFloat h (priority it))))]]
      else if truthy (priority it) then [Element ''priority'' [] [Text (priority it)]]
      else [])"
    and "priority it' = priority it"
    and "is_element (url it')"
proof -
  define it0 where "it0 = it\<lparr>url := reset (url it)\<rparr>"
  have el0: "is_element (url it0)" and pe0: "priority_elements (url it0) = []"
    and pr0: "priority it0 = priority it"
    using el by (cases "url it"; simp add: it0_def priority_elements_def)+
  have ps: "props = [''loc'', ''lastmod'', ''changefreq''] @ [''priority''] @
      [''img'', ''video'', ''links'', ''expires'', ''androidLink'', ''mobile'', ''news'', ''ampLink'']"
    by (simp add: props_def)
  from b have all: "build_props h props it0 = (None, it')" and node: "node = url it'"
    by (auto simp: buildXML_def it0_def split: prod.splits option.splits)
  obtain r1 it1 where s1: "build_props h [''loc'', ''lastmod'', ''changefreq''] it0 = (r1, it1)"
    by (cases "build_props h [''loc'', ''lastmod'', ''changefreq''] it0")
  have r1: "r1 = None" using all s1 unfolding ps build_props_None_append
    by (cases r1) auto
  have k1: "keeps it0 it1" using build_props_keeps [OF _ el0 s1] by simp
  obtain it2 where s2: "build_prop h ''priority'' it1 = (None, it2)"
    by (simp add: build_prop_priority)
  have s3: "build_props h [''img'', ''video'', ''links'', ''expires'', ''androidLink'', ''mobile'', ''news'', ''ampLink''] it2 = (None, it')"
    using all s1 r1 s2 unfolding ps build_props_None_append by simp
  have el1: "is_element (url it1)" using k1 by (rule keeps_element)
  have el2: "is_element (url it2)" using s2 el1
    by (auto simp: build_prop_priority add_child_def is_element_append_child split: if_splits)
  have k3: "keeps it2 it'" using build_props_keeps [OF _ el2 s3] by simp
  have p1: "priority it1 = priority it" and pe1: "priority_elements (url it1) = []"
    using k1 pe0 pr0 by (simp_all add: keeps_def)
  have p2: "priority it2 = priority it" using s2 p1
    by (auto simp: build_prop_priority add_child_def split: if_splits)
  show "priority it' = priority it" using k3 p2 by (simp add: keeps_def)
  show "is_element (url it')" using k3 by (rule keeps_element)
  have "priority_elements (url it2) =
     (if js_ge h (priority it) 0 \<and> js_le h (priority it) 1
      then [Element ''priority'' [] [Text (JStr (toFixed1 h (parseFloat h (priority it))))]]
      else if truthy (priority it) then [Element ''priority'' [] [Text (priority it)]]
      else [])"
    using s2 p1 pe1 el1 by (auto simp: build_prop_priority priority_elements_add split: if_splits)
  then show "priority_elements node =
     (if js_ge h (priority it) 0 \<and> js_le h (priority it) 1
      then [Element ''priority'' [] [Text (JStr (toFixed1 h (parseFloat h (priority it))))]]
      else if truthy (priority it) then [Element ''priority'' [] [Text (priority it)]]
      else [])"
    using k3 node by (simp add: keeps_def)
qed

section \<open>Formatting to one decimal place\<close>

lemma digits_small: "n < 10 \<Longrightarrow> digits n = [digit_char n]"
  by (simp add: digits.simps)

lemma toFixed1_tenths:
  assumes "0 \<le> q" "rat_of_nat n \<le> q * 10 + 1 / 2" "q * 10 + 1 / 2 < rat_of_nat n + 1" "n < 10"
  shows "toFixed1 h (Fin q) = [CHR ''0'', CHR ''.'', digit_char n]"
proof -
  have "\<lfloor>q * 10 + 1 / 2\<rfloor> = int n"
    using assms(2,3) by (intro floor_unique) auto
  then have n: "nat \<lfloor>\<bar>q\<bar> * 10 + 1 / 2\<rfloor> = n" using assms(1) by simp
  have "\<bar>q\<bar> < 10 ^ 21" using assms by auto
  then show ?thesis using assms(1,4) n
    by (simp add: toFixed1_def Let_def digits_small)
qed

lemma toFixed1_0: "toFixed1 h (Fin 0) = ''0.0''"
  using toFixed1_tenths [of 0 0 h] by (simp add: digit_char_def)

lemmas run_defs = constructor_def new_item_def lastmod_of_def CHANGEFREQ_def or_null_def js_ge_def js_le_def
  num_le_def buildXML_def props_def build_prop_def this_at_def add_child_def Let_def

lemma build_safe_15:
  "buildXML h (new_item conf_safe_15 JUndefined) =
     (Inr node_safe_15, (new_item conf_safe_15 JUndefined)\<lparr>url := node_safe_15\<rparr>)"
  by (simp add: run_defs conf_safe_15_def node_safe_15_def)

lemma build_safe_15_again:
  "buildXML h ((new_item conf_safe_15 JUndefined)\<lparr>url := node_safe_15\<rparr>) =
     (Inr node_safe_15, (new_item conf_safe_15 JUndefined)\<lparr>url := node_safe_15\<rparr>)"
  by (simp add: run_defs conf_safe_15_def node_safe_15_def)

section \<open>The claims about the priority\<close>

text \<open>
  C7. The configuration \<^verbatim>\<open>{url: "https://example.com/a", changefreq: "daily", priority: 0.7}\<close>
  is accepted, and \<^verbatim>\<open>buildXML\<close> gives for it the element \<^verbatim>\<open>url\<close> with the children \<^verbatim>\<open>loc\<close>,
  \<^verbatim>\<open>changefreq\<close> and \<^verbatim>\<open>priority\<close>, in this order, holding the url, \<^verbatim>\<open>daily\<close> and \<^verbatim>\<open>0.7\<close>.
  This holds for every number that rounds to 0.7, the double that \<^verbatim>\<open>0.7\<close> denotes among them.
\<close>

theorem end_to_end:
  "13 / 20 \<le> q \<and> q < 3 / 4 \<longrightarrow>
   (\<exists>it. constructor h (JObj [(''url'', JStr ''https://example.com/a''), (''changefreq'', JStr ''daily''),
                               (''priority'', JNum (Fin q))]) = Inr it \<and>
         fst (buildXML h it) = Inr (Element ''url'' []
           [Element ''loc'' [] [Text (JStr ''https://example.com/a'')],
            Element ''changefreq'' [] [Text (JStr ''daily'')],
            Element ''priority'' [] [Text (JStr ''0.7'')]]))"
proof
  assume q: "13 / 20 \<le> q \<and> q < 3 / 4"
  then have "toFixed1 h (Fin q) = ''0.7''"
    using toFixed1_tenths [of q 7 h] by (simp add: digit_char_def)
  with q show "\<exists>it. constructor h (JObj [(''url'', JStr ''https://example.com/a''), (''changefreq'', JStr ''daily''),
                               (''priority'', JNum (Fin q))]) = Inr it \<and>
         fst (buildXML h it) = Inr (Element ''url'' []
           [Element ''loc'' [] [Text (JStr ''https://example.com/a'')],
            Element ''changefreq'' [] [Text (JStr ''daily'')],
            Element ''priority'' [] [Text (JStr ''0.7'')]])"
    by (simp add: run_defs)
qed

theorem end_to_end_witness:
  "\<exists>it. constructor host0 (JObj [(''url'', JStr ''https://example.com/a''), (''changefreq'', JStr ''daily''),
                               (''priority'', JNum (Fin double_0_7))]) = Inr it \<and>
         fst (buildXML host0 it) = Inr (Element ''url'' []
           [Element ''loc'' [] [Text (JStr ''https://example.com/a'')],
            Element ''changefreq'' [] [Text (JStr ''daily'')],
            Element ''priority'' [] [Text (JStr ''0.7'')]])"
  using end_to_end [of double_0_7 host0] by (simp add: double_0_7_def)

text \<open>
  C10. A configuration with priority 0 and \<^verbatim>\<open>safe\<close> unset, whose url, time stamp and
  change frequency pass, is accepted: 0 is falsy, so the guard of the domain check is
  false. When \<^verbatim>\<open>buildXML\<close> gives an element for the item, it has one \<^verbatim>\<open>priority\<close> child, with
  the text \<^verbatim>\<open>0.0\<close>. For every other property a falsy value appends nothing.
\<close>

theorem priority_zero:
  "(c \<noteq> JNull \<and> \<not> truthy (get c ''safe'') \<and> truthy (get c ''url'') \<and> lastmod_of h c = Inr lm \<and>
    (truthy (get c ''changefreq'') \<longrightarrow> get c ''changefreq'' \<in> set CHANGEFREQ) \<and>
    get c ''priority'' = JNum (Fin 0) \<longrightarrow>
      \<not> truthy (get c ''priority'') \<and> (\<exists>it. constructor h c = Inr it)) \<and>
   (constructor h c = Inr it \<and> get c ''priority'' = JNum (Fin 0) \<and> buildXML h it = (Inr node, it') \<longrightarrow>
      priority_elements node = [Element ''priority'' [] [Text (JStr ''0.0'')]]) \<and>
   (p \<noteq> ''priority'' \<and> \<not> truthy (this_at it p) \<longrightarrow> build_prop h p it = (None, it))"
proof (intro conjI impI)
  assume a: "c \<noteq> JNull \<and> \<not> truthy (get c ''safe'') \<and> truthy (get c ''url'') \<and> lastmod_of h c = Inr lm \<and>
    (truthy (get c ''changefreq'') \<longrightarrow> get c ''changefreq'' \<in> set CHANGEFREQ) \<and>
    get c ''priority'' = JNum (Fin 0)"
  then show "\<not> truthy (get c ''priority'')" by simp
  from a show "\<exists>it. constructor h c = Inr it"
    using constructor_ok [of c h lm] by auto
next
  assume a: "constructor h c = Inr it \<and> get c ''priority'' = JNum (Fin 0) \<and> buildXML h it = (Inr node, it')"
  then have "is_element (url it)" "priority it = JNum (Fin 0)"
    using constructor_item [of h c it] by auto
  with a show "priority_elements node = [Element ''priority'' [] [Text (JStr ''0.0'')]]"
    using buildXML_priority(1) [of it h node it']
    by (simp add: js_ge_def js_le_def num_le_def toFixed1_0)
next
  assume "p \<noteq> ''priority'' \<and> \<not> truthy (this_at it p)"
  then show "build_prop h p it = (None, it)" by (simp add: build_prop_def)
qed

theorem priority_zero_witness:
  "\<not> truthy (JNum (Fin 0)) \<and>
   constructor host0 (JObj [(''url'', JStr ''https://example.com/a''), (''priority'', JNum (Fin 0))])
     = Inr (new_item (JObj [(''url'', JStr ''https://example.com/a''), (''priority'', JNum (Fin 0))]) JUndefined) \<and>
   buildXML host0 (new_item (JObj [(''url'', JStr ''https://example.com/a''), (''priority'', JNum (Fin 0))]) JUndefined)
     = (Inr (Element ''url'' []
               [Element ''loc'' [] [Text (JStr ''https://example.com/a'')],
                Element ''priority'' [] [Text (JStr ''0.0'')]]),
        (new_item (JObj [(''url'', JStr ''https://example.com/a''), (''priority'', JNum (Fin 0))]) JUndefined)
          \<lparr>url := Element ''url'' []
               [Element ''loc'' [] [Text (JStr ''https://example.com/a'')],
                Element ''priority'' [] [Text (JStr ''0.0'')]]\<rparr>) \<and>
   priority_elements (Element ''url'' []
               [Element ''loc'' [] [Text (JStr ''https://example.com/a'')],
                Element ''priority'' [] [Text (JStr ''0.0'')]])
     = [Element ''priority'' [] [Text (JStr ''0.0'')]] \<and>
   build_prop host0 ''changefreq''
       (new_item (JObj [(''url'', JStr ''https://example.com/a''), (''priority'', JNum (Fin 0))]) JUndefined)
     = (None, new_item (JObj [(''url'', JStr ''https://example.com/a''), (''priority'', JNum (Fin 0))]) JUndefined)"
proof -
  let ?c = "JObj [(''url'', JStr ''https://example.com/a''), (''priority'', JNum (Fin 0))]"
  let ?node = "Element ''url'' []
               [Element ''loc'' [] [Text (JStr ''https://example.com/a'')],
                Element ''priority'' [] [Text (JStr ''0.0'')]]"
  have c: "constructor host0 ?c = Inr (new_item ?c JUndefined)"
    by (simp add: run_defs)
  have b: "buildXML host0 (new_item ?c JUndefined) = (Inr ?node, (new_item ?c JUndefined)\<lparr>url := ?node\<rparr>)"
    by (simp add: run_defs toFixed1_0)
  show ?thesis
    using priority_zero [of ?c host0 JUndefined "new_item ?c JUndefined" ?node
        "(new_item ?c JUndefined)\<lparr>url := ?node\<rparr>" "''changefreq''"] c b
    by (simp add: lastmod_of_def this_at_def new_item_def)
qed

text \<open>
  C1, as the code has it. With \<^verbatim>\<open>safe\<close> unset, a truthy priority that is no number or
  lies outside [0,1] makes the constructor fail with \<open>PriorityInvalidError\<close>, provided the
  url, the time stamp and the change frequency, which are checked first, pass. With
  \<^verbatim>\<open>safe\<close> set the constructor accepts every priority. A number outside [0,1] that
  an accepted item holds is not left out by \<^verbatim>\<open>buildXML\<close>: the element it gives has one
  \<^verbatim>\<open>priority\<close> child, holding the number as it is.
\<close>

theorem priority_domain:
  "(c \<noteq> JNull \<and> \<not> truthy (get c ''safe'') \<and> truthy (get c ''url'') \<and> lastmod_of h c = Inr lm \<and>
    (truthy (get c ''changefreq'') \<longrightarrow> get c ''changefreq'' \<in> set CHANGEFREQ) \<and>
    truthy (get c ''priority'') \<and>
    (typeof (get c ''priority'') \<noteq> ''number'' \<or>
     \<not> (js_ge h (get c ''priority'') 0 \<and> js_le h (get c ''priority'') 1)) \<longrightarrow>
      constructor h c = Inl PriorityInvalidError) \<and>
   (c \<noteq> JNull \<and> truthy (get c ''safe'') \<and> truthy (get c ''url'') \<and> lastmod_of h c = Inr lm \<longrightarrow>
      constructor h c = Inr (new_item c lm) \<and> priority (new_item c lm) = get c ''priority'') \<and>
   (constructor h c = Inr it \<and> get c ''priority'' = JNum x \<and> x \<noteq> NaN \<and>
    \<not> (num_le (Fin 0) x \<and> num_le x (Fin 1)) \<and> buildXML h it = (Inr node, it') \<longrightarrow>
      priority_elements node = [Element ''priority'' [] [Text (JNum x)]])"
proof (intro conjI impI)
  assume a: "c \<noteq> JNull \<and> \<not> truthy (get c ''safe'') \<and> truthy (get c ''url'') \<and> lastmod_of h c = Inr lm \<and>
    (truthy (get c ''changefreq'') \<longrightarrow> get c ''changefreq'' \<in> set CHANGEFREQ) \<and>
    truthy (get c ''priority'') \<and>
    (typeof (get c ''priority'') \<noteq> ''number'' \<or>
     \<not> (js_ge h (get c ''priority'') 0 \<and> js_le h (get c ''priority'') 1))"
  then have "c \<noteq> JUndefined" by auto
  with a show "constructor h c = Inl PriorityInvalidError"
    by (auto simp: constructor_def Let_def)
next
  assume a: "c \<noteq> JNull \<and> truthy (get c ''safe'') \<and> truthy (get c ''url'') \<and> lastmod_of h c = Inr lm"
  then have "c \<noteq> JUndefined" by auto
  with a show "constructor h c = Inr (new_item c lm)"
    by (auto simp: constructor_def Let_def)
  show "priority (new_item c lm) = get c ''priority''" by (simp add: new_item_def)
next
  assume a: "constructor h c = Inr it \<and> get c ''priority'' = JNum x \<and> x \<noteq> NaN \<and>
    \<not> (num_le (Fin 0) x \<and> num_le x (Fin 1)) \<and> buildXML h it = (Inr node, it')"
  then have el: "is_element (url it)" and p: "priority it = JNum x"
    using constructor_item [of h c it] by auto
  from a have t: "truthy (JNum x)"
    by (cases x) (auto simp: num_le_def)
  from a el p t show "priority_elements node = [Element ''priority'' [] [Text (JNum x)]]"
    using buildXML_priority(1) [of it h node it']
    by (auto simp: js_ge_def js_le_def)
qed

text \<open>
  The claim as stated fails for \<^verbatim>\<open>{url: "https://example.com/a", safe: true, priority: 1.5}\<close>:
  the element built for it has a \<^verbatim>\<open>priority\<close> child.
\<close>

theorem priority_domain_counterexample:
  "constructor host0 conf_safe_15 = Inr (new_item conf_safe_15 JUndefined) \<and>
   fst (buildXML host0 (new_item conf_safe_15 JUndefined)) = Inr node_safe_15 \<and>
   priority_elements node_safe_15 = [Element ''priority'' [] [Text (JNum (Fin (3 / 2)))]]"
  by (simp add: build_safe_15) (simp add: run_defs conf_safe_15_def node_safe_15_def priority_elements_def)

theorem priority_domain_witness:
  "constructor host0 (JObj [(''url'', JStr ''https://example.com/a''), (''priority'', JNum (Fin (3 / 2)))])
     = Inl PriorityInvalidError \<and>
   constructor host0 (JObj [(''url'', JStr ''https://example.com/a''), (''priority'', JStr ''high'')])
     = Inl PriorityInvalidError \<and>
   constructor host0 conf_safe_15 = Inr (new_item conf_safe_15 JUndefined) \<and>
   buildXML host0 (new_item conf_safe_15 JUndefined)
     = (Inr node_safe_15, (new_item conf_safe_15 JUndefined)\<lparr>url := node_safe_15\<rparr>) \<and>
   priority_elements node_safe_15 = [Element ''priority'' [] [Text (JNum (Fin (3 / 2)))]]"
proof -
  have c: "constructor host0 conf_safe_15 = Inr (new_item conf_safe_15 JUndefined)"
    using priority_domain [of conf_safe_15 host0 JUndefined]
    by (simp add: lastmod_of_def conf_safe_15_def)
  have "priority_elements node_safe_15 = [Element ''priority'' [] [Text (JNum (Fin (3 / 2)))]]"
    using priority_domain [of conf_safe_15 host0 JUndefined "new_item conf_safe_15 JUndefined"
        "Fin (3 / 2)" node_safe_15 "(new_item conf_safe_15 JUndefined)\<lparr>url := node_safe_15\<rparr>"]
      c build_safe_15 [of host0]
    by (simp add: num_le_def) (simp add: conf_safe_15_def)
  moreover have "constructor host0
      (JObj [(''url'', JStr ''https://example.com/a''), (''priority'', JNum (Fin (3 / 2)))])
     = Inl PriorityInvalidError"
    using priority_domain [of "JObj [(''url'', JStr ''https://example.com/a''),
        (''priority'', JNum (Fin (3 / 2)))]" host0 JUndefined]
    by (simp add: lastmod_of_def js_ge_def js_le_def num_le_def)
  moreover have "constructor host0
      (JObj [(''url'', JStr ''https://example.com/a''), (''priority'', JStr ''high'')])
     = Inl PriorityInvalidError"
    using priority_domain [of "JObj [(''url'', JStr ''https://example.com/a''),
        (''priority'', JStr ''high'')]" host0 JUndefined]
    by (simp add: lastmod_of_def)
  ultimately show ?thesis using c build_safe_15 [of host0] by simp
qed

text \<open>
  C9, as the code has it. For a configuration with \<^verbatim>\<open>safe: true\<close> and priority 1.5,
  building the item twice gives, both times, an element with exactly one \<^verbatim>\<open>priority\<close>
  child, holding 1.5 as it is: the priority is not left out, and the second build,
  which starts by emptying \<^verbatim>\<open>url\<close>, repeats the first.
\<close>

theorem build_twice:
  "constructor h c = Inr it \<and> get c ''safe'' = JBool True \<and> get c ''priority'' = JNum (Fin (3 / 2)) \<and>
   buildXML h it = (Inr node1, it1) \<and> buildXML h it1 = (Inr node2, it2) \<longrightarrow>
     priority_elements node1 = [Element ''priority'' [] [Text (JNum (Fin (3 / 2)))]] \<and>
     priority_elements node2 = [Element ''priority'' [] [Text (JNum (Fin (3 / 2)))]]"
proof
  assume a: "constructor h c = Inr it \<and> get c ''safe'' = JBool True \<and> get c ''priority'' = JNum (Fin (3 / 2)) \<and>
   buildXML h it = (Inr node1, it1) \<and> buildXML h it1 = (Inr node2, it2)"
  then have el: "is_element (url it)" and p: "priority it = JNum (Fin (3 / 2))"
    using constructor_item [of h c it] by auto
  from a el have p1: "priority it1 = priority it" and el1: "is_element (url it1)"
    using buildXML_priority(2,3) [of it h node1 it1] by auto
  have n1: "priority_elements node1 = [Element ''priority'' [] [Text (JNum (Fin (3 / 2)))]]"
    using buildXML_priority(1) [of it h node1 it1] a el p
    by (simp add: js_ge_def js_le_def num_le_def)
  have n2: "priority_elements node2 = [Element ''priority'' [] [Text (JNum (Fin (3 / 2)))]]"
    using buildXML_priority(1) [of it1 h node2 it2] a el1 p p1
    by (simp add: js_ge_def js_le_def num_le_def)
  from n1 n2 show "priority_elements node1 = [Element ''priority'' [] [Text (JNum (Fin (3 / 2)))]] \<and>
     priority_elements node2 = [Element ''priority'' [] [Text (JNum (Fin (3 / 2)))]]" by simp
qed

text \<open>
  The claim as stated fails for \<^verbatim>\<open>{url: "https://example.com/a", safe: true, priority: 1.5}\<close>:
  both builds give the same element, and it has a \<^verbatim>\<open>priority\<close> child.
\<close>

theorem build_twice_counterexample:
  "buildXML host0 (new_item conf_safe_15 JUndefined)
     = (Inr node_safe_15, (new_item conf_safe_15 JUndefined)\<lparr>url := node_safe_15\<rparr>) \<and>
   buildXML host0 ((new_item conf_safe_15 JUndefined)\<lparr>url := node_safe_15\<rparr>)
     = (Inr node_safe_15, (new_item conf_safe_15 JUndefined)\<lparr>url := node_safe_15\<rparr>) \<and>
   children node_safe_15 =
     [Element ''loc'' [] [Text (JStr ''https://example.com/a'')],
      Element ''priority'' [] [Text (JNum (Fin (3 / 2)))]]"
  by (simp add: build_safe_15 build_safe_15_again) (simp add: node_safe_15_def)

theorem build_twice_witness:
  "constructor host0 conf_safe_15 = Inr (new_item conf_safe_15 JUndefined) \<and>
   get conf_safe_15 ''safe'' = JBool True \<and>
   get conf_safe_15 ''priority'' = JNum (Fin (3 / 2)) \<and>
   priority_elements node_safe_15 = [Element ''priority'' [] [Text (JNum (Fin (3 / 2)))]]"
proof -
  have c: "constructor host0 conf_safe_15 = Inr (new_item conf_safe_15 JUndefined)"
    by (simp add: run_defs conf_safe_15_def)
  have g: "get conf_safe_15 ''safe'' = JBool True" "get conf_safe_15 ''priority'' = JNum (Fin (3 / 2))"
    by (simp_all add: conf_safe_15_def)
  show ?thesis
    using build_twice [of host0 conf_safe_15 "new_item conf_safe_15 JUndefined" node_safe_15
        "(new_item conf_safe_15 JUndefined)\<lparr>url := node_safe_15\<rparr>" node_safe_15
        "(new_item conf_safe_15 JUndefined)\<lparr>url := node_safe_15\<rparr>"]
      c g build_safe_15 [of host0] build_safe_15_again [of host0]
    by simp
qed

section \<open>The news element\<close>

lemma buildNewsElement_no_language:
  "\<not> truthy (get (get n ''publication'') ''language'') \<Longrightarrow>
   buildNewsElement n it = (Some InvalidNewsFormat, add_child (Element ''news:news'' [] []) it)"
  by (simp add: buildNewsElement_def news_steps_def news_required_def)

lemma build_prop_news_field:
  assumes "is_element (url it)" "build_prop h p it = (r, it')"
  shows "news it' = news it \<and> is_element (url it')"
proof (cases "p = ''priority''")
  case True
  with assms show ?thesis
    by (auto simp: build_prop_priority add_child_def is_element_append_child split: if_splits)
next
  case False
  with assms have "keeps it it'" using build_prop_keeps by blast
  then show ?thesis by (simp add: keeps_def)
qed

lemma build_props_news_field:
  "is_element (url it) \<Longrightarrow> build_props h ps it = (r, it') \<Longrightarrow>
   news it' = news it \<and> is_element (url it')"
proof (induction ps arbitrary: it)
  case Nil
  then show ?case by simp
next
  case (Cons p ps)
  obtain r1 it1 where s: "build_prop h p it = (r1, it1)" by (cases "build_prop h p it")
  with Cons.prems(1) have k: "news it1 = news it \<and> is_element (url it1)"
    using build_prop_news_field by blast
  show ?case
  proof (cases r1)
    case None
    with s Cons.prems(2) have "build_props h ps it1 = (r, it')" by simp
    with Cons.IH [of it1] k show ?thesis by simp
  next
    case (Some e)
    with s Cons.prems(2) have "it' = it1" by simp
    with k show ?thesis by simp
  qed
qed

text \<open>
  C6. When the news of an item has no \<^verbatim>\<open>publication.language\<close>, whatever else it holds,
  the turn of the loop for \<^verbatim>\<open>news\<close> fails with \<open>InvalidNewsFormat\<close>, and \<^verbatim>\<open>buildXML\<close>
  gives no element for the item: it fails there, or in an earlier turn.
\<close>

theorem news_without_language:
  "(truthy (news it) \<and> \<not> truthy (get (get (news it) ''publication'') ''language'') \<longrightarrow>
      build_prop h ''news'' it = (Some InvalidNewsFormat, add_child (Element ''news:news'' [] []) it)) \<and>
   (truthy (news it) \<and> \<not> truthy (get (get (news it) ''publication'') ''language'') \<and>
    is_element (url it) \<longrightarrow> (\<exists>e. fst (buildXML h it) = Inl e))"
proof (intro conjI impI)
  assume a: "truthy (news it) \<and> \<not> truthy (get (get (news it) ''publication'') ''language'')"
  then show "build_prop h ''news'' it = (Some InvalidNewsFormat, add_child (Element ''news:news'' [] []) it)"
    by (simp add: build_prop_def this_at_def buildNewsElement_no_language)
next
  assume a: "truthy (news it) \<and> \<not> truthy (get (get (news it) ''publication'') ''language'') \<and>
    is_element (url it)"
  define it0 where "it0 = it\<lparr>url := reset (url it)\<rparr>"
  have el0: "is_element (url it0)" and n0: "news it0 = news it"
    using a by (cases "url it"; simp add: it0_def)+
  let ?pre = "[''loc'', ''lastmod'', ''changefreq'', ''priority'', ''img'', ''video'', ''links'',
               ''expires'', ''androidLink'', ''mobile'']"
  have ps: "props = ?pre @ [''news'', ''ampLink'']" by (simp add: props_def)
  obtain r1 it1 where s1: "build_props h ?pre it0 = (r1, it1)" by (cases "build_props h ?pre it0")
  then have n1: "news it1 = news it" using build_props_news_field [OF el0 s1] n0 by simp
  have "\<exists>e a. build_props h props it0 = (Some e, a)"
  proof (cases r1)
    case None
    have "build_prop h ''news'' it1 = (Some InvalidNewsFormat, add_child (Element ''news:news'' [] []) it1)"
      using a n1 by (simp add: build_prop_def this_at_def buildNewsElement_no_language)
    with None s1 show ?thesis unfolding ps build_props_None_append by simp
  next
    case (Some e)
    with s1 show ?thesis unfolding ps build_props_None_append by simp
  qed
  then show "\<exists>e. fst (buildXML h it) = Inl e"
    by (auto simp: buildXML_def it0_def)
qed

theorem news_without_language_witness:
  "constructor host0 conf_news = Inr (new_item conf_news JUndefined) \<and>
   build_prop host0 ''news'' (new_item conf_news JUndefined)
     = (Some InvalidNewsFormat, add_child (Element ''news:news'' [] []) (new_item conf_news JUndefined)) \<and>
   fst (buildXML host0 (new_item conf_news JUndefined)) = Inl InvalidNewsFormat"
proof -
  have c: "constructor host0 conf_news = Inr (new_item conf_news JUndefined)"
    by (simp add: run_defs conf_news_def)
  have b: "fst (buildXML host0 (new_item conf_news JUndefined)) = Inl InvalidNewsFormat"
    by (simp add: run_defs conf_news_def buildNewsElement_def news_steps_def news_required_def)
  show ?thesis
    using news_without_language [of "new_item conf_news JUndefined" host0] c b
    by (simp add: new_item_def conf_news_def or_null_def)
qed

section \<open>The duration of a video\<close>

lemma run_steps_acc:
  "run_steps fs v acc = (case run_steps fs v [] of (r, ns) \<Rightarrow> (r, acc @ ns))"
proof (induction fs arbitrary: acc)
  case Nil
  then show ?case by simp
next
  case (Cons f fs)
  show ?case
  proof (cases "f v")
    case (Inl e)
    then show ?thesis by simp
  next
    case (Inr ns)
    then show ?thesis
      using Cons.IH [of "acc @ ns"] Cons.IH [of ns] by (simp split: prod.splits)
  qed
qed

lemma run_steps_cong:
  "(\<And>f. f \<in> set fs \<Longrightarrow> f v = f v') \<Longrightarrow> run_steps fs v acc = run_steps fs v' acc"
proof (induction fs arbitrary: acc)
  case Nil
  then show ?case by simp
next
  case (Cons g fs)
  have "g v = g v'" using Cons.prems by simp
  moreover have "run_steps fs v a = run_steps fs v' a" for a
    using Cons.IH Cons.prems by simp
  ultimately show ?case by (simp split: sum.splits)
qed

lemma reduce_cong:
  assumes "nullish v = nullish v'" "\<And>k. k \<in> set ks \<Longrightarrow> get v k = get v' k"
  shows "reduce h v ks a = reduce h v' ks a"
  using assms
proof (induction ks arbitrary: a)
  case Nil
  then show ?case by simp
next
  case (Cons k ks)
  have "get v k = get v' k" using Cons.prems(2) by simp
  with Cons.prems(1) have "attr_step h v a k = attr_step h v' a k"
    by (simp add: attr_step_def Let_def)
  moreover have "reduce h v ks b = reduce h v' ks b" for b
    using Cons.IH Cons.prems by simp
  ultimately show ?case by (simp split: sum.splits)
qed

text \<open>The steps other than the one for the duration do not read the duration.\<close>

lemma steps_without_duration:
  assumes "typeof v = typeof v'" "nullish v = nullish v'"
    and g: "\<And>k. k \<noteq> ''duration'' \<Longrightarrow> get v k = get v' k"
  shows "f \<in> set (take 5 (video_steps h)) \<union> set (drop 6 (video_steps h)) \<Longrightarrow> f v = f v'"
proof -
  have a: "attrBuilder h v ks = attrBuilder h v' ks"
    if "''duration'' \<notin> set (key_list ks)" for ks
  proof -
    have "get v k = get v' k" if "k \<in> set (key_list ks)" for k
      using that \<open>''duration'' \<notin> set (key_list ks)\<close> g [of k]
      by (cases "k = ''duration''") auto
    then show ?thesis
      unfolding attrBuilder_def using assms(2) by (intro reduce_cong) auto
  qed
  have o: "opt_element k n v = opt_element k n v'" if "k \<noteq> ''duration''" for k n
    using that g by (simp add: opt_element_def)
  have oa: "opt_element_attrs h k n ks v = opt_element_attrs h k n ks v'"
    if "k \<noteq> ''duration''" "''duration'' \<notin> set (key_list ks)" for k n ks
    using that g [of k] a [of ks] by (simp add: opt_element_attrs_def cong: sum.case_cong)
  have r: "video_required v = video_required v'"
    using assms(1,2) g by (simp add: video_required_def)
  have d: "video_description_length h v = video_description_length h v'"
    using g by (simp add: video_description_length_def)
  have hd: "video_head v = video_head v'" using g by (simp add: video_head_def)
  have t: "video_tag v = video_tag v'" using g by (simp add: video_tag_def)
  have gl: "video_gallery_loc v = video_gallery_loc v'" using g by (simp add: video_gallery_loc_def)
  assume "f \<in> set (take 5 (video_steps h)) \<union> set (drop 6 (video_steps h))"
  then show "f v = f v'"
    unfolding video_steps_def using o oa r d hd t gl by auto
qed

lemma video_steps_split:
  "video_steps h = take 5 (video_steps h) @ [video_duration h] @ drop 6 (video_steps h)"
  by (simp add: video_steps_def)

lemma get_added:
  "map_of kvs k = None \<Longrightarrow> get (JObj (kvs @ [(k, x)])) k' = (if k' = k then x else get (JObj kvs) k')"
  by (auto simp: map_add_def split: option.splits)

lemma video_duration_cases:
  "video_duration h (JObj (kvs @ [(''duration'', JNum (Fin d))])) =
     (if map_of kvs ''duration'' \<noteq> None then video_duration h (JObj kvs)
      else if d = 0 then Inr []
      else if d < 0 \<or> 28800 < d then Inl InvalidVideoDuration
      else Inr [Element ''video:duration'' [] [Text (JNum (Fin d))]])"
  by (auto simp: video_duration_def safeDuration_def js_lt_def js_gt_def map_add_def
      split: option.splits)


lemma other_steps_names:
  assumes "f \<in> set (take 5 (video_steps h)) \<union> set (drop 6 (video_steps h))" "f v = Inr ns"
  shows "\<forall>x \<in> set ns. name_of x \<noteq> ''video:duration''"
  using assms unfolding video_steps_def
  by (auto simp: video_required_def video_description_length_def video_head_def opt_element_def
      opt_element_attrs_def element_with_def video_tag_def video_gallery_loc_def
      split: if_splits sum.splits)

lemma run_steps_names:
  assumes "\<And>f ns. f \<in> set fs \<Longrightarrow> f v = Inr ns \<Longrightarrow> \<forall>x \<in> set ns. P x"
  shows "run_steps fs v acc = (r, kids) \<Longrightarrow> \<forall>x \<in> set acc. P x \<Longrightarrow> \<forall>x \<in> set kids. P x"
  using assms
proof (induction fs arbitrary: acc)
  case Nil
  then show ?case by simp
next
  case (Cons g fs)
  show ?case
  proof (cases "g v")
    case (Inl e)
    with Cons.prems show ?thesis by simp
  next
    case (Inr ns)
    then have "\<forall>x \<in> set ns. P x" using Cons.prems(3) [of g ns] by simp
    with Cons.prems(2) have "\<forall>x \<in> set (acc @ ns). P x" by auto
    moreover from Inr Cons.prems(1) have "run_steps fs v (acc @ ns) = (r, kids)" by simp
    moreover have "\<forall>x \<in> set ms. P x" if "f \<in> set fs" "f v = Inr ms" for f ms
      using that Cons.prems(3) [of f ms] by simp
    ultimately show ?thesis using Cons.IH [of "acc @ ns"] by blast
  qed
qed

lemma duration_added:
  assumes no: "map_of kvs ''duration'' = None"
    and ok: "run_steps (video_steps h) (JObj kvs) [] = (None, kids0)"
  shows "\<exists>a b. kids0 = a @ b \<and> (\<forall>x \<in> set (a @ b). name_of x \<noteq> ''video:duration'') \<and>
     (\<forall>d. run_steps (video_steps h) (JObj (kvs @ [(''duration'', JNum (Fin d))])) [] =
        (if d < 0 \<or> 28800 < d then (Some InvalidVideoDuration, a)
         else if d = 0 then (None, a @ b)
         else (None, a @ [Element ''video:duration'' [] [Text (JNum (Fin d))]] @ b)))"
proof -
  let ?v = "JObj kvs"
  let ?pre = "take 5 (video_steps h)"
  let ?post = "drop 6 (video_steps h)"
  have same: "f (JObj (kvs @ [(''duration'', JNum (Fin d))])) = f ?v"
    if "f \<in> set ?pre \<union> set ?post" for f d
    using that no by (intro steps_without_duration) (auto simp: nullish_def map_add_def split: option.splits)
  have d0: "video_duration h ?v = Inr []"
    using no by (simp add: video_duration_def)
  have pre: "run_steps ?pre (JObj (kvs @ [(''duration'', JNum (Fin d))])) a = run_steps ?pre ?v a" for a d
    by (intro run_steps_cong same) simp
  have post: "run_steps ?post (JObj (kvs @ [(''duration'', JNum (Fin d))])) a = run_steps ?post ?v a" for a d
    by (intro run_steps_cong same) simp
  obtain rp ap where p: "run_steps ?pre ?v [] = (rp, ap)" by (cases "run_steps ?pre ?v []")
  obtain rq aq where q: "run_steps ?post ?v [] = (rq, aq)" by (cases "run_steps ?post ?v []")
  have run_v: "run_steps (video_steps h) ?v [] =
      (case rp of Some e \<Rightarrow> (Some e, ap) | None \<Rightarrow> (rq, ap @ aq))"
    by (subst video_steps_split, subst run_steps_append, simp add: p d0 split: option.splits,
        subst run_steps_acc, simp add: q)
  with ok have rp: "rp = None" and rq: "rq = None" and k0: "kids0 = ap @ aq"
    by (cases rp; simp)+
  have post_w: "run_steps ?post (JObj (kvs @ [(''duration'', JNum (Fin d))])) a = (None, a @ aq)" for a d
    by (subst post, subst run_steps_acc, simp add: q rq)
  have run_w: "run_steps (video_steps h) (JObj (kvs @ [(''duration'', JNum (Fin d))])) [] =
      (case video_duration h (JObj (kvs @ [(''duration'', JNum (Fin d))])) of
         Inl e \<Rightarrow> (Some e, ap) | Inr ns \<Rightarrow> (None, ap @ ns @ aq))" for d
    by (subst video_steps_split, subst run_steps_append, simp add: pre p rp post_w split: sum.splits)
  have names: "\<forall>x \<in> set (ap @ aq). name_of x \<noteq> ''video:duration''"
  proof -
    have "\<forall>x \<in> set ap. name_of x \<noteq> ''video:duration''"
      using run_steps_names [of ?pre ?v "\<lambda>x. name_of x \<noteq> ''video:duration''" "[]" rp ap]
        other_steps_names [of _ h ?v] p by auto
    moreover have "\<forall>x \<in> set aq. name_of x \<noteq> ''video:duration''"
      using run_steps_names [of ?post ?v "\<lambda>x. name_of x \<noteq> ''video:duration''" "[]" rq aq]
        other_steps_names [of _ h ?v] q by auto
    ultimately show ?thesis by auto
  qed
  have "\<forall>d. run_steps (video_steps h) (JObj (kvs @ [(''duration'', JNum (Fin d))])) [] =
        (if d < 0 \<or> 28800 < d then (Some InvalidVideoDuration, ap)
         else if d = 0 then (None, ap @ aq)
         else (None, ap @ [Element ''video:duration'' [] [Text (JNum (Fin d))]] @ aq))"
    unfolding run_w using no by (auto simp: video_duration_cases)
  with k0 names show ?thesis by blast
qed

lemma children_add_child:
  "is_element (url it) \<Longrightarrow> children (url (add_child c it)) = children (url it) @ [c]"
  by (simp add: add_child_def children_append_child)

text \<open>
  C3, as the code has it. \<^verbatim>\<open>safeDuration\<close> refuses a number below 0 or above 28800 and
  gives every other number back as it is. For a video that is built without error when
  it has no duration: with the duration 28801 the build fails with
  \<open>InvalidVideoDuration\<close>; with 28800, and with every duration above 0 and up to 28800,
  it succeeds, and the \<^verbatim>\<open>video:video\<close> element has, at the place of the duration, a
  \<^verbatim>\<open>video:duration\<close> child holding that number unchanged; with 0 it succeeds too, but 0
  is falsy: the element is the one built without a duration, and it has no
  \<^verbatim>\<open>video:duration\<close> child.
\<close>

theorem duration_gate:
  "safeDuration h (JNum (Fin d)) =
     (if d < 0 \<or> 28800 < d then Inl InvalidVideoDuration else Inr (JNum (Fin d))) \<and>
   (map_of kvs ''duration'' = None \<and> is_element (url it) \<and>
    buildVideoElement h (JObj kvs) it = (None, it0) \<longrightarrow>
      (\<exists>a b. children (url it0) = children (url it) @ [Element ''video:video'' [] (a @ b)] \<and>
         (\<forall>x \<in> set (a @ b). name_of x \<noteq> ''video:duration'') \<and>
         fst (buildVideoElement h (JObj (kvs @ [(''duration'', JNum (Fin 28801))])) it)
           = Some InvalidVideoDuration \<and>
         buildVideoElement h (JObj (kvs @ [(''duration'', JNum (Fin 0))])) it = (None, it0) \<and>
         (\<exists>it1. buildVideoElement h (JObj (kvs @ [(''duration'', JNum (Fin 28800))])) it = (None, it1) \<and>
            children (url it1) = children (url it) @ [Element ''video:video'' []
              (a @ [Element ''video:duration'' [] [Text (JNum (Fin 28800))]] @ b)]) \<and>
         (0 < d \<and> d \<le> 28800 \<longrightarrow>
            (\<exists>it1. buildVideoElement h (JObj (kvs @ [(''duration'', JNum (Fin d))])) it = (None, it1) \<and>
               children (url it1) = children (url it) @ [Element ''video:video'' []
                 (a @ [Element ''video:duration'' [] [Text (JNum (Fin d))]] @ b)]))))"
proof (intro conjI impI)
  show "safeDuration h (JNum (Fin d)) =
     (if d < 0 \<or> 28800 < d then Inl InvalidVideoDuration else Inr (JNum (Fin d)))"
    by (simp add: safeDuration_def js_lt_def js_gt_def)
next
  assume a: "map_of kvs ''duration'' = None \<and> is_element (url it) \<and>
    buildVideoElement h (JObj kvs) it = (None, it0)"
  obtain r kids0 where k: "run_steps (video_steps h) (JObj kvs) [] = (r, kids0)"
    by (cases "run_steps (video_steps h) (JObj kvs) []")
  with a have r: "r = None" and it0: "it0 = add_child (Element ''video:video'' [] kids0) it"
    by (simp_all add: buildVideoElement_def)
  from a k r obtain a' b' where ab: "kids0 = a' @ b'"
    and names: "\<forall>x \<in> set (a' @ b'). name_of x \<noteq> ''video:duration''"
    and run: "\<And>d. run_steps (video_steps h) (JObj (kvs @ [(''duration'', JNum (Fin d))])) [] =
        (if d < 0 \<or> 28800 < d then (Some InvalidVideoDuration, a')
         else if d = 0 then (None, a' @ b')
         else (None, a' @ [Element ''video:duration'' [] [Text (JNum (Fin d))]] @ b'))"
    using duration_added [of kvs h kids0] by blast
  have el: "is_element (url it)" using a by simp
  have pass: "\<exists>it1. buildVideoElement h (JObj (kvs @ [(''duration'', JNum (Fin e))])) it = (None, it1) \<and>
            children (url it1) = children (url it) @ [Element ''video:video'' []
              (a' @ [Element ''video:duration'' [] [Text (JNum (Fin e))]] @ b')]"
    if "0 < e" "e \<le> 28800" for e
    using that el by (simp add: buildVideoElement_def run children_add_child)
  show "\<exists>a b. children (url it0) = children (url it) @ [Element ''video:video'' [] (a @ b)] \<and>
         (\<forall>x \<in> set (a @ b). name_of x \<noteq> ''video:duration'') \<and>
         fst (buildVideoElement h (JObj (kvs @ [(''duration'', JNum (Fin 28801))])) it)
           = Some InvalidVideoDuration \<and>
         buildVideoElement h (JObj (kvs @ [(''duration'', JNum (Fin 0))])) it = (None, it0) \<and>
         (\<exists>it1. buildVideoElement h (JObj (kvs @ [(''duration'', JNum (Fin 28800))])) it = (None, it1) \<and>
            children (url it1) = children (url it) @ [Element ''video:video'' []
              (a @ [Element ''video:duration'' [] [Text (JNum (Fin 28800))]] @ b)]) \<and>
         (0 < d \<and> d \<le> 28800 \<longrightarrow>
            (\<exists>it1. buildVideoElement h (JObj (kvs @ [(''duration'', JNum (Fin d))])) it = (None, it1) \<and>
               children (url it1) = children (url it) @ [Element ''video:video'' []
                 (a @ [Element ''video:duration'' [] [Text (JNum (Fin d))]] @ b)]))"
  proof (rule exI [of _ a'], rule exI [of _ b'], intro conjI impI)
    show "children (url it0) = children (url it) @ [Element ''video:video'' [] (a' @ b')]"
      using el by (simp add: it0 ab children_add_child)
    show "\<forall>x \<in> set (a' @ b'). name_of x \<noteq> ''video:duration''" by (rule names)
    show "fst (buildVideoElement h (JObj (kvs @ [(''duration'', JNum (Fin 28801))])) it)
           = Some InvalidVideoDuration"
      by (simp add: buildVideoElement_def run)
    show "buildVideoElement h (JObj (kvs @ [(''duration'', JNum (Fin 0))])) it = (None, it0)"
      by (simp add: buildVideoElement_def run it0 ab)
    show "\<exists>it1. buildVideoElement h (JObj (kvs @ [(''duration'', JNum (Fin 28800))])) it = (None, it1) \<and>
            children (url it1) = children (url it) @ [Element ''video:video'' []
              (a' @ [Element ''video:duration'' [] [Text (JNum (Fin 28800))]] @ b')]"
      using pass [of 28800] by simp
    show "\<exists>it1. buildVideoElement h (JObj (kvs @ [(''duration'', JNum (Fin d))])) it = (None, it1) \<and>
               children (url it1) = children (url it) @ [Element ''video:video'' []
                 (a' @ [Element ''video:duration'' [] [Text (JNum (Fin d))]] @ b')]"
      if "0 < d \<and> d \<le> 28800"
      using pass [of d] that by simp
  qed
qed

text \<open>
  The claim as stated fails for the duration 0: it is accepted, and the element built has
  no \<^verbatim>\<open>video:duration\<close> child.
\<close>

theorem duration_gate_counterexample:
  "safeDuration host0 (JNum (Fin 0)) = Inr (JNum (Fin 0)) \<and>
   buildVideoElement host0 (JObj (video_tTD @ [(''duration'', JNum (Fin 0))]))
       (new_item conf_safe_15 JUndefined)
     = (None, add_child (Element ''video:video'' []
            [Element ''video:thumbnail_loc'' [] [Text (JStr ''t.jpg'')],
             Element ''video:title'' [] [CData (JStr ''T'')],
             Element ''video:description'' [] [CData (JStr ''D'')]])
          (new_item conf_safe_15 JUndefined))"
  by (simp add: video_defs video_tTD_def)

theorem duration_gate_witness:
  "map_of video_tTD ''duration'' = None \<and>
   buildVideoElement host0 (JObj video_tTD) (new_item conf_safe_15 JUndefined)
     = (None, add_child (Element ''video:video'' []
            [Element ''video:thumbnail_loc'' [] [Text (JStr ''t.jpg'')],
             Element ''video:title'' [] [CData (JStr ''T'')],
             Element ''video:description'' [] [CData (JStr ''D'')]])
          (new_item conf_safe_15 JUndefined)) \<and>
   fst (buildVideoElement host0 (JObj (video_tTD @ [(''duration'', JNum (Fin 28801))]))
          (new_item conf_safe_15 JUndefined)) = Some InvalidVideoDuration \<and>
   buildVideoElement host0 (JObj (video_tTD @ [(''duration'', JNum (Fin 0))]))
       (new_item conf_safe_15 JUndefined)
     = buildVideoElement host0 (JObj video_tTD) (new_item conf_safe_15 JUndefined) \<and>
   children (url (snd (buildVideoElement host0 (JObj (video_tTD @ [(''duration'', JNum (Fin 28800))]))
       (new_item conf_safe_15 JUndefined))))
     = [Element ''video:video'' []
            [Element ''video:thumbnail_loc'' [] [Text (JStr ''t.jpg'')],
             Element ''video:title'' [] [CData (JStr ''T'')],
             Element ''video:description'' [] [CData (JStr ''D'')],
             Element ''video:duration'' [] [Text (JNum (Fin 28800))]]] \<and>
   children (url (snd (buildVideoElement host0 (JObj (video_tTD @ [(''duration'', JNum (Fin 3600))]))
       (new_item conf_safe_15 JUndefined))))
     = [Element ''video:video'' []
            [Element ''video:thumbnail_loc'' [] [Text (JStr ''t.jpg'')],
             Element ''video:title'' [] [CData (JStr ''T'')],
             Element ''video:description'' [] [CData (JStr ''D'')],
             Element ''video:duration'' [] [Text (JNum (Fin 3600))]]] \<and>
   safeDuration host0 (JNum (Fin 3600)) = Inr (JNum (Fin 3600))"
proof -
  let ?it = "new_item conf_safe_15 JUndefined"
  let ?kids = "[Element ''video:thumbnail_loc'' [] [Text (JStr ''t.jpg'')],
             Element ''video:title'' [] [CData (JStr ''T'')],
             Element ''video:description'' [] [CData (JStr ''D'')]]"
  have n: "map_of video_tTD ''duration'' = None" by (simp add: video_tTD_def)
  have el: "is_element (url ?it)" by (simp add: new_item_def)
  have b: "buildVideoElement host0 (JObj video_tTD) ?it
      = (None, add_child (Element ''video:video'' [] ?kids) ?it)"
    by (simp add: video_defs video_tTD_def)
  have c: "children (url (snd (buildVideoElement host0 (JObj (video_tTD @ [(''duration'', JNum (Fin e))])) ?it)))
     = [Element ''video:video'' [] (?kids @ [Element ''video:duration'' [] [Text (JNum (Fin e))]])]"
    if "0 < e" "e \<le> 28800" for e
    using that by (simp add: video_defs video_tTD_def new_item_def add_child_def)
  show ?thesis
    using duration_gate [of host0 3600 video_tTD ?it "add_child (Element ''video:video'' [] ?kids) ?it"]
      n el b c [of 28800] c [of 3600]
    by auto
qed

section \<open>What a failed step leaves behind\<close>

text \<open>A run that raises stopped at its first failing step and kept what the steps before appended.\<close>

lemma run_steps_raised:
  "run_steps fs v acc = (Some e, kids) \<Longrightarrow>
   \<exists>pre f post nss. fs = pre @ f # post \<and> f v = Inl e \<and>
      map (\<lambda>g. g v) pre = map Inr nss \<and> kids = acc @ concat nss"
proof (induction fs arbitrary: acc)
  case Nil
  then show ?case by simp
next
  case (Cons g fs)
  show ?case
  proof (cases "g v")
    case (Inl e')
    with Cons.prems have "e' = e" "kids = acc" by simp_all
    with Inl have "g # fs = [] @ g # fs \<and> g v = Inl e \<and>
      map (\<lambda>g. g v) [] = map Inr [] \<and> kids = acc @ concat []" by simp
    then show ?thesis by blast
  next
    case (Inr ns)
    with Cons.prems have "run_steps fs v (acc @ ns) = (Some e, kids)" by simp
    then obtain pre f post nss where p: "fs = pre @ f # post" "f v = Inl e"
      "map (\<lambda>g. g v) pre = map Inr nss" "kids = (acc @ ns) @ concat nss"
      using Cons.IH by blast
    with Inr have "g # fs = (g # pre) @ f # post \<and> f v = Inl e \<and>
      map (\<lambda>g. g v) (g # pre) = map Inr (ns # nss) \<and> kids = acc @ concat (ns # nss)" by simp
    then show ?thesis by blast
  qed
qed

lemma run_steps_error_source:
  "run_steps fs v acc = (Some e, kids) \<Longrightarrow> \<exists>f \<in> set fs. f v = Inl e"
  using run_steps_raised [of fs v acc e kids] by auto

text \<open>A build that raises stopped in the turn that raised: no later turn ran.\<close>

lemma build_props_raised:
  "build_props h ps it = (Some e, it') \<Longrightarrow>
   \<exists>pre p post it1. ps = pre @ p # post \<and> build_props h pre it = (None, it1) \<and>
      build_prop h p it1 = (Some e, it')"
proof (induction ps arbitrary: it)
  case Nil
  then show ?case by simp
next
  case (Cons q ps)
  obtain r1 it1 where s: "build_prop h q it = (r1, it1)" by (cases "build_prop h q it")
  show ?case
  proof (cases r1)
    case None
    with s Cons.prems have "build_props h ps it1 = (Some e, it')" by simp
    then obtain pre p post it2 where p: "ps = pre @ p # post" "build_props h pre it1 = (None, it2)"
      "build_prop h p it2 = (Some e, it')"
      using Cons.IH by blast
    with s None have "q # ps = (q # pre) @ p # post \<and> build_props h (q # pre) it = (None, it2) \<and>
      build_prop h p it2 = (Some e, it')" by simp
    then show ?thesis by blast
  next
    case (Some e')
    with s Cons.prems have "q # ps = [] @ q # ps \<and> build_props h [] it = (None, it) \<and>
      build_prop h q it = (Some e, it')" by simp
    then show ?thesis by blast
  qed
qed

lemma reduce_errors:
  "reduce h c ks a = Inl e \<Longrightarrow>
   e = TypeError \<or> (\<exists>k. e = InvalidAttr k) \<or> (\<exists>k v. e = InvalidAttrValue k v)"
  by (induction ks arbitrary: a) (auto simp: attr_step_def Let_def split: if_splits sum.splits)

lemma opt_element_attrs_errors:
  assumes "opt_element_attrs h k n ks v = Inl e"
  shows "e = MissingAttributeValue \<or> e = TypeError \<or> (\<exists>k. e = InvalidAttr k) \<or>
         (\<exists>k x. e = InvalidAttrValue k x)"
  using assms reduce_errors [of h v "key_list ks" "[]" e]
  by (auto simp: opt_element_attrs_def element_with_def attrBuilder_def split: if_splits sum.splits)

lemma later_steps_errors:
  assumes "f \<in> set (drop 2 (video_steps h))" "f v = Inl e"
  shows "e \<noteq> InvalidVideoFormat \<and> e \<noteq> InvalidVideoDescription"
proof -
  from assms consider k n ks where "opt_element_attrs h k n ks v = Inl e"
    | "e \<noteq> InvalidVideoFormat \<and> e \<noteq> InvalidVideoDescription"
    unfolding video_steps_def
    by (auto simp: video_head_def opt_element_def element_with_def
        video_duration_def safeDuration_def video_tag_def video_gallery_loc_def
        split: if_splits sum.splits)
  then show ?thesis by cases (auto dest!: opt_element_attrs_errors)
qed

lemma other_steps_errors:
  assumes "f \<in> set (take 5 (video_steps h)) \<union> set (drop 6 (video_steps h))" "f v = Inl e"
  shows "e \<noteq> InvalidVideoDuration"
proof -
  from assms consider k n ks where "opt_element_attrs h k n ks v = Inl e"
    | "e \<noteq> InvalidVideoDuration"
    unfolding video_steps_def
    by (auto simp: video_required_def video_description_length_def video_head_def opt_element_def
        element_with_def video_tag_def video_gallery_loc_def
        split: if_splits sum.splits)
  then show ?thesis by cases (auto dest!: opt_element_attrs_errors)
qed

text \<open>What the steps before the duration have appended when they all pass.\<close>

lemma first_five_steps:
  assumes "run_steps (take 5 (video_steps h)) v [] = (None, a)"
  shows "\<exists>pl. opt_element_attrs h ''player_loc'' ''video:player_loc'' (Key ''player_loc:autoplay'') v = Inr pl \<and>
     a = [Element ''video:thumbnail_loc'' [] [Text (get v ''thumbnail_loc'')],
          Element ''video:title'' [] [CData (get v ''title'')],
          Element ''video:description'' [] [CData (get v ''description'')]] @
         (if truthy (get v ''content_loc'')
          then [Element ''video:content_loc'' [] [Text (get v ''content_loc'')]] else []) @ pl"
  using assms
  by (auto simp: video_steps_def video_required_def video_description_length_def video_head_def
      opt_element_def split: if_splits sum.splits)

lemma first_two_steps:
  "run_steps (take 2 (video_steps h)) v [] = (r, a) \<Longrightarrow> a = []"
  by (auto simp: video_steps_def video_required_def video_description_length_def
      split: if_splits sum.splits)

lemma video_format_failure:
  assumes "run_steps (video_steps h) v [] = (Some e, kids)"
    "e = InvalidVideoFormat \<or> e = InvalidVideoDescription"
  shows "kids = []"
proof -
  obtain r a where f: "run_steps (take 2 (video_steps h)) v [] = (r, a)"
    by (cases "run_steps (take 2 (video_steps h)) v []")
  then have a: "a = []" by (rule first_two_steps)
  have "run_steps (video_steps h) v [] = run_steps (take 2 (video_steps h) @ drop 2 (video_steps h)) v []"
    by simp
  also have "\<dots> = (case r of Some e' \<Rightarrow> (Some e', []) | None \<Rightarrow> run_steps (drop 2 (video_steps h)) v [])"
    by (subst run_steps_append) (simp add: f a split: option.splits)
  finally have c: "run_steps (video_steps h) v [] =
      (case r of Some e' \<Rightarrow> (Some e', []) | None \<Rightarrow> run_steps (drop 2 (video_steps h)) v [])" .
  show ?thesis
  proof (cases r)
    case None
    with c assms(1) have "run_steps (drop 2 (video_steps h)) v [] = (Some e, kids)" by simp
    then obtain g where "g \<in> set (drop 2 (video_steps h))" "g v = Inl e"
      using run_steps_error_source by blast
    with assms(2) show ?thesis using later_steps_errors by blast
  next
    case (Some e')
    with c assms(1) show ?thesis by simp
  qed
qed

lemma video_duration_failure:
  assumes "run_steps (video_steps h) v [] = (Some InvalidVideoDuration, kids)"
  shows "run_steps (take 5 (video_steps h)) v [] = (None, kids)"
proof -
  obtain r a where f: "run_steps (take 5 (video_steps h)) v [] = (r, a)"
    by (cases "run_steps (take 5 (video_steps h)) v []")
  have r: "r = None"
  proof (cases r)
    case (Some e')
    with f obtain g where "g \<in> set (take 5 (video_steps h))" "g v = Inl e'"
      using run_steps_error_source by blast
    then have "e' \<noteq> InvalidVideoDuration" using other_steps_errors by blast
    moreover have "run_steps (video_steps h) v [] = (Some e', a)"
      by (subst video_steps_split, subst run_steps_append) (simp add: f Some)
    ultimately show ?thesis using assms by simp
  qed simp
  have c: "run_steps (video_steps h) v [] =
      (case video_duration h v of Inl e \<Rightarrow> (Some e, a)
       | Inr ns \<Rightarrow> run_steps (drop 6 (video_steps h)) v (a @ ns))"
    by (subst video_steps_split, subst run_steps_append) (simp add: f r)
  show ?thesis
  proof (cases "video_duration h v")
    case (Inl e)
    with c assms f r show ?thesis by simp
  next
    case (Inr ns)
    with c assms have "run_steps (drop 6 (video_steps h)) v (a @ ns) = (Some InvalidVideoDuration, kids)"
      by simp
    then obtain g where "g \<in> set (drop 6 (video_steps h))" "g v = Inl InvalidVideoDuration"
      using run_steps_error_source by blast
    then show ?thesis using other_steps_errors by blast
  qed
qed

lemma news_failure:
  assumes "run_steps news_steps n [] = (Some e, kids)"
  shows "(e = InvalidNewsFormat \<and> kids = []) \<or>
     (e = InvalidNewsAccessValue \<and>
      kids = [Element ''news:publication'' []
                [Element ''news:name'' [] [CData (get (get n ''publication'') ''name'')],
                 Element ''news:language'' [] [Text (get (get n ''publication'') ''language'')]]])"
  using assms
  by (auto simp: news_steps_def news_required_def news_publication_def news_access_def
      news_date_title_def opt_element_def split: if_splits)


text \<open>
  C2, as the code has it. The constructor gives an item only when every check has passed,
  and the item is then complete. A build that raises gives no element and stops in the
  turn that raised. But a failed video or news step is not undone: \<^verbatim>\<open>url\<close> has gained a
  \<^verbatim>\<open>video:video\<close> or \<^verbatim>\<open>news:news\<close> child holding exactly what the steps before the failing
  one appended: nothing for a refused format or description; the thumbnail, the title,
  the description and any content and player location for a refused duration; the
  publication for a refused access value.
\<close>

theorem failure_leaves_element:
  "(constructor h c = Inr it0 \<longrightarrow>
      c \<noteq> JNull \<and> truthy (get c ''url'') \<and>
      (\<exists>lm. lastmod_of h c = Inr lm \<and> it0 = new_item c lm) \<and>
      (truthy (get c ''safe'') \<or> \<not> truthy (get c ''changefreq'') \<or>
       get c ''changefreq'' \<in> set CHANGEFREQ) \<and>
      (truthy (get c ''safe'') \<or> \<not> truthy (get c ''priority'') \<or>
       (js_ge h (get c ''priority'') 0 \<and> js_le h (get c ''priority'') 1 \<and>
        typeof (get c ''priority'') = ''number''))) \<and>
   (buildXML h it = (Inl e, it') \<longrightarrow>
      (\<exists>pre p post it1. props = pre @ p # post \<and>
         build_props h pre (it\<lparr>url := reset (url it)\<rparr>) = (None, it1) \<and>
         build_prop h p it1 = (Some e, it'))) \<and>
   (is_element (url it) \<and> buildVideoElement h v it = (Some e, it') \<longrightarrow>
      (\<exists>pre f post nss. video_steps h = pre @ f # post \<and> f v = Inl e \<and>
         map (\<lambda>g. g v) pre = map Inr nss \<and>
         children (url it') = children (url it) @ [Element ''video:video'' [] (concat nss)]) \<and>
      (e = InvalidVideoFormat \<or> e = InvalidVideoDescription \<longrightarrow>
         children (url it') = children (url it) @ [Element ''video:video'' [] []]) \<and>
      (e = InvalidVideoDuration \<longrightarrow>
         (\<exists>pl. opt_element_attrs h ''player_loc'' ''video:player_loc'' (Key ''player_loc:autoplay'') v
                  = Inr pl \<and>
            children (url it') = children (url it) @ [Element ''video:video'' []
              ([Element ''video:thumbnail_loc'' [] [Text (get v ''thumbnail_loc'')],
                Element ''video:title'' [] [CData (get v ''title'')],
                Element ''video:description'' [] [CData (get v ''description'')]] @
               (if truthy (get v ''content_loc'')
                then [Element ''video:content_loc'' [] [Text (get v ''content_loc'')]] else []) @
               pl)]))) \<and>
   (is_element (url it) \<and> buildNewsElement n it = (Some e, it') \<longrightarrow>
      (e = InvalidNewsFormat \<and>
       children (url it') = children (url it) @ [Element ''news:news'' [] []]) \<or>
      (e = InvalidNewsAccessValue \<and>
       children (url it') = children (url it) @ [Element ''news:news'' []
         [Element ''news:publication'' []
            [Element ''news:name'' [] [CData (get (get n ''publication'') ''name'')],
             Element ''news:language'' [] [Text (get (get n ''publication'') ''language'')]]]]))"
proof (intro conjI impI)
  assume a: "constructor h c = Inr it0"
  then have u: "c \<noteq> JUndefined" by (auto simp: constructor_def Let_def split: if_splits)
  from a u show "c \<noteq> JNull" "truthy (get c ''url'')"
    "\<exists>lm. lastmod_of h c = Inr lm \<and> it0 = new_item c lm"
    "truthy (get c ''safe'') \<or> \<not> truthy (get c ''changefreq'') \<or>
       get c ''changefreq'' \<in> set CHANGEFREQ"
    "truthy (get c ''safe'') \<or> \<not> truthy (get c ''priority'') \<or>
       (js_ge h (get c ''priority'') 0 \<and> js_le h (get c ''priority'') 1 \<and>
        typeof (get c ''priority'') = ''number'')"
    by (auto simp: constructor_def Let_def split: if_splits sum.splits)
next
  assume "buildXML h it = (Inl e, it')"
  then have "build_props h props (it\<lparr>url := reset (url it)\<rparr>) = (Some e, it')"
    by (auto simp: buildXML_def split: prod.splits option.splits)
  then show "\<exists>pre p post it1. props = pre @ p # post \<and>
         build_props h pre (it\<lparr>url := reset (url it)\<rparr>) = (None, it1) \<and>
         build_prop h p it1 = (Some e, it')"
    by (rule build_props_raised)
next
  assume a: "is_element (url it) \<and> buildVideoElement h v it = (Some e, it')"
  obtain r kids where k: "run_steps (video_steps h) v [] = (r, kids)"
    by (cases "run_steps (video_steps h) v []")
  with a have r: "r = Some e" and it': "it' = add_child (Element ''video:video'' [] kids) it"
    by (simp_all add: buildVideoElement_def)
  have ch: "children (url it') = children (url it) @ [Element ''video:video'' [] kids]"
    using a it' by (simp add: children_add_child)
  show "\<exists>pre f post nss. video_steps h = pre @ f # post \<and> f v = Inl e \<and>
         map (\<lambda>g. g v) pre = map Inr nss \<and>
         children (url it') = children (url it) @ [Element ''video:video'' [] (concat nss)]"
    using run_steps_raised [of "video_steps h" v "[]" e kids] k r ch by auto
  show "children (url it') = children (url it) @ [Element ''video:video'' [] []]"
    if "e = InvalidVideoFormat \<or> e = InvalidVideoDescription"
    using video_format_failure [of h v e kids] k r ch that by simp
  show "\<exists>pl. opt_element_attrs h ''player_loc'' ''video:player_loc'' (Key ''player_loc:autoplay'') v
                  = Inr pl \<and>
            children (url it') = children (url it) @ [Element ''video:video'' []
              ([Element ''video:thumbnail_loc'' [] [Text (get v ''thumbnail_loc'')],
                Element ''video:title'' [] [CData (get v ''title'')],
                Element ''video:description'' [] [CData (get v ''description'')]] @
               (if truthy (get v ''content_loc'')
                then [Element ''video:content_loc'' [] [Text (get v ''content_loc'')]] else []) @
               pl)]"
    if "e = InvalidVideoDuration"
    using first_five_steps [OF video_duration_failure, of h v kids] k r ch that by auto
next
  assume a: "is_element (url it) \<and> buildNewsElement n it = (Some e, it')"
  obtain r kids where k: "run_steps news_steps n [] = (r, kids)"
    by (cases "run_steps news_steps n []")
  with a have r: "r = Some e" and it': "it' = add_child (Element ''news:news'' [] kids) it"
    by (simp_all add: buildNewsElement_def)
  have ch: "children (url it') = children (url it) @ [Element ''news:news'' [] kids]"
    using a it' by (simp add: children_add_child)
  show "(e = InvalidNewsFormat \<and>
       children (url it') = children (url it) @ [Element ''news:news'' [] []]) \<or>
      (e = InvalidNewsAccessValue \<and>
       children (url it') = children (url it) @ [Element ''news:news'' []
         [Element ''news:publication'' []
            [Element ''news:name'' [] [CData (get (get n ''publication'') ''name'')],
             Element ''news:language'' [] [Text (get (get n ''publication'') ''language'')]]]])"
    using news_failure [of n e kids] k r ch by auto
qed

lemma build_video_long:
  "buildXML h (new_item conf_video_long JUndefined) =
     (Inl InvalidVideoDuration,
      (new_item conf_video_long JUndefined)
        \<lparr>video := JArr [JObj (video_tTD @ [(''duration'', JNum (Fin 28801))])],
         url := Element ''url'' []
           [Element ''loc'' [] [Text (JStr ''https://example.com/v'')],
            Element ''video:video'' []
              [Element ''video:thumbnail_loc'' [] [Text (JStr ''t.jpg'')],
               Element ''video:title'' [] [CData (JStr ''T'')],
               Element ''video:description'' [] [CData (JStr ''D'')]]]\<rparr>)"
  by (simp add: run_defs video_defs conf_video_long_def video_tTD_def as_array_def forEach_of_def)

text \<open>
  The claim as stated fails for a video with the duration 28801: the build raises, and
  the \<^verbatim>\<open>url\<close> element of the item holds a \<^verbatim>\<open>video:video\<close> element with three children.
\<close>

theorem failure_leaves_element_counterexample:
  "constructor host0 conf_video_long = Inr (new_item conf_video_long JUndefined) \<and>
   fst (buildXML host0 (new_item conf_video_long JUndefined)) = Inl InvalidVideoDuration \<and>
   children (url (snd (buildXML host0 (new_item conf_video_long JUndefined)))) =
     [Element ''loc'' [] [Text (JStr ''https://example.com/v'')],
      Element ''video:video'' []
        [Element ''video:thumbnail_loc'' [] [Text (JStr ''t.jpg'')],
         Element ''video:title'' [] [CData (JStr ''T'')],
         Element ''video:description'' [] [CData (JStr ''D'')]]]"
  by (simp add: build_video_long) (simp add: run_defs conf_video_long_def)

theorem failure_leaves_element_witness:
  "constructor host0 conf_video_long = Inr (new_item conf_video_long JUndefined) \<and>
   truthy (get conf_video_long ''url'') \<and>
   buildXML host0 (new_item conf_video_long JUndefined)
     = (Inl InvalidVideoDuration, snd (buildXML host0 (new_item conf_video_long JUndefined))) \<and>
   fst (buildVideoElement host0 (JObj (video_tTD @ [(''duration'', JNum (Fin 28801))]))
          (new_item conf_news JUndefined)) = Some InvalidVideoDuration \<and>
   children (url (snd (buildVideoElement host0 (JObj (video_tTD @ [(''duration'', JNum (Fin 28801))]))
          (new_item conf_news JUndefined))))
     = [Element ''video:video'' []
          [Element ''video:thumbnail_loc'' [] [Text (JStr ''t.jpg'')],
           Element ''video:title'' [] [CData (JStr ''T'')],
           Element ''video:description'' [] [CData (JStr ''D'')]]] \<and>
   fst (buildVideoElement host0 video_late (new_item conf_news JUndefined))
     = Some (InvalidAttrValue ''price:currency'' (JStr ''usd'')) \<and>
   children (url (snd (buildVideoElement host0 video_late (new_item conf_news JUndefined))))
     = [Element ''video:video'' []
          [Element ''video:thumbnail_loc'' [] [Text (JStr ''t.jpg'')],
           Element ''video:title'' [] [CData (JStr ''T'')],
           Element ''video:description'' [] [CData (JStr ''D'')],
           Element ''video:duration'' [] [Text (JNum (Fin 3600))]]] \<and>
   fst (buildNewsElement news_bad_access (new_item conf_news JUndefined)) = Some InvalidNewsAccessValue \<and>
   children (url (snd (buildNewsElement news_bad_access (new_item conf_news JUndefined))))
     = [Element ''news:news'' []
          [Element ''news:publication'' []
             [Element ''news:name'' [] [CData (JStr ''The Example Times'')],
              Element ''news:language'' [] [Text (JStr ''en'')]]]]"
proof -
  let ?it = "new_item conf_news JUndefined"
  let ?long = "JObj (video_tTD @ [(''duration'', JNum (Fin 28801))])"
  let ?kids = "[Element ''video:thumbnail_loc'' [] [Text (JStr ''t.jpg'')],
             Element ''video:title'' [] [CData (JStr ''T'')],
             Element ''video:description'' [] [CData (JStr ''D'')]]"
  have el: "is_element (url ?it)" "children (url ?it) = []" by (simp_all add: new_item_def)
  have c: "constructor host0 conf_video_long = Inr (new_item conf_video_long JUndefined)"
    by (simp add: run_defs conf_video_long_def)
  have x: "buildXML host0 (new_item conf_video_long JUndefined)
     = (Inl InvalidVideoDuration, snd (buildXML host0 (new_item conf_video_long JUndefined)))"
    by (simp add: build_video_long)
  have v1: "buildVideoElement host0 ?long ?it
      = (Some InvalidVideoDuration, add_child (Element ''video:video'' [] ?kids) ?it)"
    by (simp add: video_defs video_tTD_def)
  have v2: "buildVideoElement host0 video_late ?it
      = (Some (InvalidAttrValue ''price:currency'' (JStr ''usd'')),
         add_child (Element ''video:video'' []
           (?kids @ [Element ''video:duration'' [] [Text (JNum (Fin 3600))]])) ?it)"
    by (simp add: video_defs video_late_def video_tTD_def)
  have n1: "buildNewsElement news_bad_access ?it
      = (Some InvalidNewsAccessValue, add_child (Element ''news:news'' []
          [Element ''news:publication'' []
             [Element ''news:name'' [] [CData (JStr ''The Example Times'')],
              Element ''news:language'' [] [Text (JStr ''en'')]]]) ?it)"
    by (simp add: buildNewsElement_def news_steps_def news_required_def news_publication_def
        news_access_def news_bad_access_def)
  show ?thesis
    using failure_leaves_element [of host0 conf_video_long "new_item conf_video_long JUndefined"
        "new_item conf_video_long JUndefined" InvalidVideoDuration
        "snd (buildXML host0 (new_item conf_video_long JUndefined))"]
      failure_leaves_element [of host0 conf_video_long "new_item conf_video_long JUndefined"
        ?it InvalidVideoDuration "add_child (Element ''video:video'' [] ?kids) ?it" ?long]
      failure_leaves_element [of host0 conf_video_long "new_item conf_video_long JUndefined"
        ?it "InvalidAttrValue ''price:currency'' (JStr ''usd'')"
        "add_child (Element ''video:video'' []
           (?kids @ [Element ''video:duration'' [] [Text (JNum (Fin 3600))]])) ?it" video_late]
      failure_leaves_element [of host0 conf_video_long "new_item conf_video_long JUndefined"
        ?it InvalidNewsAccessValue "add_child (Element ''news:news'' []
          [Element ''news:publication'' []
             [Element ''news:name'' [] [CData (JStr ''The Example Times'')],
              Element ''news:language'' [] [Text (JStr ''en'')]]]) ?it" ?long news_bad_access]
      el c x v1 v2 n1
    by (simp add: children_add_child)
qed

end
